theory Spec2Isabelle
  imports Complex_Main
begin

section \<open>Data model\<close>

text \<open>
  A row of the \<open>posts\<close> table (src/app.js, lines 30-37). The column \<open>id\<close> is called
  \<open>post_id\<close> here. A timestamp column holds the text that SQLite's \<open>datetime('now')\<close>
  yields, a fixed-width \<open>YYYY-MM-DD HH:MM:SS\<close> string whose order is the order of the
  instants, or \<open>NULL\<close>; the model keeps the instant, as a number of seconds, and \<open>None\<close>
  for \<open>NULL\<close>. The same record stands for the JSON object of a post.
\<close>

record post =
  post_id :: int
  title :: string
  content :: string
  created_at :: "nat option"
  updated_at :: "nat option"

text \<open>
  A JavaScript number, as \<open>Number(req.params.id)\<close> and \<open>Number(postId)\<close> produce it: not a
  number, one of the two infinities, or a finite value (every finite double is a rational).
\<close>

datatype jsnum = NaN | Infinity | NegInfinity | Finite rat

definition isFinite :: "jsnum \<Rightarrow> bool" where
  "isFinite n = (case n of Finite _ \<Rightarrow> True | _ \<Rightarrow> False)"

text \<open>
  A property read off a JSON object (\<open>req.body.title\<close>, \<open>postData.title\<close>): absent, null, a
  string, a boolean, a number, or an object or array.
\<close>

datatype jsval = Undefined | Null | Str string | Bool bool | Num jsnum | Object

text \<open>
  \<open>req.body\<close>: undefined when the request carries no JSON body, and otherwise the parsed
  value, of which the handlers read the properties \<open>title\<close> and \<open>content\<close>.
\<close>

datatype reqbody = NoBody | Body jsval jsval

text \<open>
  What a piece of code throws: the \<open>TypeError\<close> of calling a method that a value does not
  have, or an \<open>Error\<close> with its message.
\<close>

datatype thrown = TypeError | JsError string

subsection \<open>Integers as JavaScript numbers\<close>

text \<open>
  The database holds ids as 64-bit integers; the driver hands them to JavaScript as Numbers
  (\<open>this.lastID\<close>, the \<open>id\<close> of a row that \<open>db.get\<close> or \<open>db.all\<close> returns), which are
  doubles. \<open>to_double k\<close> is the value of the double nearest to \<open>k\<close>, ties going to the even
  significand: \<open>k\<close> itself up to \<open>2^53\<close> in absolute value, and beyond that a multiple of
  the power of two that leaves 53 significant bits.
\<close>

definition two53 :: int where
  "two53 = 9007199254740992"

fun bit_length :: "nat \<Rightarrow> nat" where
  "bit_length n = (if n = 0 then 0 else Suc (bit_length (n div 2)))"

declare bit_length.simps [simp del]

definition to_double :: "int \<Rightarrow> int" where
  "to_double k =
     (if \<bar>k\<bar> \<le> two53 then k
      else (let a = nat \<bar>k\<bar>;
                e = bit_length a - 53;
                q = a div 2 ^ e;
                r = a mod 2 ^ e;
                q' = (if 2 ^ (e - 1) < r \<or> (r = 2 ^ (e - 1) \<and> odd q) then q + 1 else q)
            in sgn k * int (q' * 2 ^ e)))"

text \<open>A row as JavaScript receives it from the driver.\<close>

definition to_js :: "post \<Rightarrow> post" where
  "to_js p = p\<lparr>post_id := to_double (post_id p)\<rparr>"

subsection \<open>Strings\<close>

text \<open>
  \<open>String.prototype.trim\<close> removes white space and line terminators from both ends. Strings
  are lists of 8-bit characters here; the white space among them is tab, line feed, vertical
  tab, form feed, carriage return, space and the no-break space.
\<close>

definition is_space :: "char \<Rightarrow> bool" where
  "is_space c = (c \<in> set [CHR 0x09, CHR 0x0A, CHR 0x0B, CHR 0x0C, CHR 0x0D, CHR 0x20, CHR 0xA0])"

definition trim :: "string \<Rightarrow> string" where
  "trim s = rev (dropWhile is_space (rev (dropWhile is_space s)))"

section \<open>The post store (src/app.js)\<close>

text \<open>
  The database: the rows of \<open>posts\<close> in insertion order; the entry of the table in
  \<open>sqlite_sequence\<close>, which \<open>AUTOINCREMENT\<close> keeps at the largest id ever given out; and
  whether the two timestamp columns have the default \<open>datetime('now')\<close>. They have it in a
  table made by the \<open>CREATE TABLE\<close> of lines 31-37. A table made by the earlier server
  (id, title and content only) gets its timestamp columns from the \<open>ALTER TABLE ... ADD
  COLUMN\<close> of lines 41-42, without a default.
\<close>

record store =
  rows :: "post list"
  seq :: int
  defaults :: bool

text \<open>The database that \<open>initializeDatabase\<close> makes when there is none.\<close>

definition init_store :: store where
  "init_store = \<lparr>rows = [], seq = 0, defaults = True\<rparr>"


datatype body =
    Rows "post list"
  | Row post
  | NoRow
  | ErrorJson string
  | Success
  | Unhandled

datatype response = Resp (status: nat) (body: body)

text \<open>\<open>WHERE id = ?\<close> with a JavaScript number bound to the parameter.\<close>

definition id_eq :: "jsnum \<Rightarrow> post \<Rightarrow> bool" where
  "id_eq n p = (case n of Finite q \<Rightarrow> of_int (post_id p) = q | _ \<Rightarrow> False)"

text \<open>\<open>SELECT * FROM posts ORDER BY id DESC\<close> through \<open>db.all\<close>\<close>

definition select_all_desc :: "store \<Rightarrow> post list" where
  "select_all_desc s = map to_js (rev (sort_key post_id (rows s)))"

text \<open>\<open>SELECT * FROM posts WHERE id = ?\<close> through \<open>db.get\<close>: the first matching row, if any.\<close>

definition select_by_id :: "jsnum \<Rightarrow> store \<Rightarrow> post option" where
  "select_by_id n s = map_option to_js (find (id_eq n) (rows s))"

text \<open>
  \<open>INSERT INTO posts (title, content) VALUES (?, ?)\<close>. The id is one more than the largest
  id the table has ever held; both timestamps take the default \<open>datetime('now')\<close>, which is
  one value within a statement, or stay \<open>NULL\<close> where the columns have no default. When the
  largest 64-bit id has been used the statement fails (\<open>SQLITE_FULL\<close>), which is \<open>None\<close>.
  The result carries the id of the new row.
\<close>

definition max_rowid :: int where
  "max_rowid = 9223372036854775807"

definition largest_rowid :: "store \<Rightarrow> int" where
  "largest_rowid s = fold max (map post_id (rows s)) (seq s)"

definition inserted_row :: "nat \<Rightarrow> string \<Rightarrow> string \<Rightarrow> store \<Rightarrow> post" where
  "inserted_row now t c s =
     \<lparr>post_id = largest_rowid s + 1, title = t, content = c,
      created_at = (if defaults s then Some now else None),
      updated_at = (if defaults s then Some now else None)\<rparr>"

definition insert_post :: "nat \<Rightarrow> string \<Rightarrow> string \<Rightarrow> store \<Rightarrow> (int \<times> store) option" where
  "insert_post now t c s =
     (if max_rowid \<le> largest_rowid s then None
      else Some (largest_rowid s + 1,
        s\<lparr>rows := rows s @ [inserted_row now t c s], seq := largest_rowid s + 1\<rparr>))"

text \<open>
  \<open>UPDATE posts SET title = ?, content = ?, updated_at = datetime('now') WHERE id = ?\<close>; the
  first component is \<open>this.changes\<close>, the number of rows the statement matched.
\<close>

definition update_rows :: "nat \<Rightarrow> string \<Rightarrow> string \<Rightarrow> jsnum \<Rightarrow> store \<Rightarrow> nat \<times> store" where
  "update_rows now t c n s =
     (length (filter (id_eq n) (rows s)),
      s\<lparr>rows := map (\<lambda>p. if id_eq n p
                          then p\<lparr>title := t, content := c, updated_at := Some now\<rparr> else p)
                 (rows s)\<rparr>)"

text \<open>\<open>DELETE FROM posts WHERE id = ?\<close>, again with \<open>this.changes\<close>.\<close>

definition delete_rows :: "jsnum \<Rightarrow> store \<Rightarrow> nat \<times> store" where
  "delete_rows n s =
     (length (filter (id_eq n) (rows s)),
      s\<lparr>rows := filter (\<lambda>p. \<not> id_eq n p) (rows s)\<rparr>)"

subsection \<open>Payload check\<close>

text \<open>
  \<open>title?.trim()\<close>: undefined for an absent or null field, the trimmed text for a string,
  and a \<open>TypeError\<close> for any other value, which has no \<open>trim\<close> method.
\<close>

fun opt_trim :: "jsval \<Rightarrow> thrown + string option" where
  "opt_trim Undefined = Inr None"
| "opt_trim Null = Inr None"
| "opt_trim (Str s) = Inr (Some (trim s))"
| "opt_trim (Bool b) = Inl TypeError"
| "opt_trim (Num n) = Inl TypeError"
| "opt_trim Object = Inl TypeError"

definition falsy :: "string option \<Rightarrow> bool" where
  "falsy r = (case r of None \<Rightarrow> True | Some s \<Rightarrow> s = [])"

text \<open>
  \<open>if (!title?.trim() || !content?.trim())\<close>, evaluated left to right: \<open>Inr None\<close> when the
  condition holds (the handler answers 400), and otherwise the pair
  \<open>(title.trim(), content.trim())\<close> that the handler binds to its statement.
\<close>

definition checked :: "jsval \<Rightarrow> jsval \<Rightarrow> thrown + (string \<times> string) option" where
  "checked t c =
     (case opt_trim t of
        Inl e \<Rightarrow> Inl e
      | Inr t' \<Rightarrow>
          if falsy t' then Inr None
          else (case opt_trim c of
                  Inl e \<Rightarrow> Inl e
                | Inr c' \<Rightarrow>
                    if falsy c' then Inr None
                    else (case (t', c') of
                            (Some a, Some b) \<Rightarrow> Inr (Some (a, b))
                          | _ \<Rightarrow> Inr None)))"

subsection \<open>Handlers\<close>

text \<open>
  A handler takes what it reads from the request: the number \<open>Number(req.params.id)\<close> and
  \<open>req.body\<close>. It returns the response and, when it writes, the new state of the database.
  An exception that escapes a handler is answered by the framework with status 500.
\<close>

text \<open>\<open>app.get('/api/posts')\<close>\<close>

definition get_posts :: "store \<Rightarrow> response" where
  "get_posts s = Resp 200 (Rows (select_all_desc s))"

text \<open>\<open>app.get('/api/posts/:id')\<close>; the argument is \<open>Number(req.params.id)\<close>.\<close>

definition get_post :: "jsnum \<Rightarrow> store \<Rightarrow> response" where
  "get_post n s =
     (if \<not> isFinite n then Resp 400 (ErrorJson ''Invalid id'')
      else (case select_by_id n s of
              None \<Rightarrow> Resp 404 (ErrorJson ''Not found'')
            | Some row \<Rightarrow> Resp 200 (Row row)))"

text \<open>
  \<open>app.post('/api/posts')\<close>; \<open>now\<close> is the clock reading that \<open>datetime('now')\<close> returns.
  Destructuring an undefined \<open>req.body\<close> throws. \<open>this.lastID\<close> is the id of the new row as
  a Number, and the row of the response is the one selected by that Number.
\<close>

definition create_post :: "nat \<Rightarrow> reqbody \<Rightarrow> store \<Rightarrow> response \<times> store" where
  "create_post now b s =
     (case b of
        NoBody \<Rightarrow> (Resp 500 Unhandled, s)
      | Body t c \<Rightarrow>
     (case checked t c of
        Inl e \<Rightarrow> (Resp 500 Unhandled, s)
      | Inr None \<Rightarrow> (Resp 400 (ErrorJson ''Title and content required''), s)
      | Inr (Some (t', c')) \<Rightarrow>
          (case insert_post now t' c' s of
             None \<Rightarrow> (Resp 500 (ErrorJson ''SQLITE_FULL: database or disk is full''), s)
           | Some (k, s') \<Rightarrow>
               (case select_by_id (Finite (of_int (to_double k))) s' of
                  None \<Rightarrow> (Resp 201 NoRow, s')
                | Some row \<Rightarrow> (Resp 201 (Row row), s')))))"

text \<open>
  \<open>app.put('/api/posts/:id')\<close>. The handler destructures \<open>req.body\<close> (line 112) before it
  tests the id (line 114).
\<close>

definition update_post :: "nat \<Rightarrow> jsnum \<Rightarrow> reqbody \<Rightarrow> store \<Rightarrow> response \<times> store" where
  "update_post now n b s =
     (case b of
        NoBody \<Rightarrow> (Resp 500 Unhandled, s)
      | Body t c \<Rightarrow>
      if \<not> isFinite n then (Resp 400 (ErrorJson ''Invalid id''), s)
      else (case checked t c of
              Inl e \<Rightarrow> (Resp 500 Unhandled, s)
            | Inr None \<Rightarrow> (Resp 400 (ErrorJson ''Title and content required''), s)
            | Inr (Some (t', c')) \<Rightarrow>
                (case update_rows now t' c' n s of
                   (changes, s') \<Rightarrow>
                     if changes = 0 then (Resp 404 (ErrorJson ''Not found''), s')
                     else (case select_by_id n s' of
                             None \<Rightarrow> (Resp 200 NoRow, s')
                           | Some row \<Rightarrow> (Resp 200 (Row row), s')))))"

text \<open>\<open>app.delete('/api/posts/:id')\<close>\<close>

definition delete_post :: "jsnum \<Rightarrow> store \<Rightarrow> response \<times> store" where
  "delete_post n s =
     (if \<not> isFinite n then (Resp 400 (ErrorJson ''Invalid id''), s)
      else (case delete_rows n s of
              (changes, s') \<Rightarrow>
                if changes = 0 then (Resp 404 (ErrorJson ''Not found''), s')
                else (Resp 200 Success, s')))"

subsection \<open>Sequences of requests\<close>

datatype request =
    List
  | Get jsnum
  | Create reqbody
  | Update jsnum reqbody
  | Delete jsnum

fun handle :: "nat \<Rightarrow> request \<Rightarrow> store \<Rightarrow> response \<times> store" where
  "handle now List s = (get_posts s, s)"
| "handle now (Get n) s = (get_post n s, s)"
| "handle now (Create b) s = create_post now b s"
| "handle now (Update n b) s = update_post now n b s"
| "handle now (Delete n) s = delete_post n s"

text \<open>
  The server answers one request after the other; each comes with the reading of the clock
  at the moment it is served.
\<close>

fun run :: "(nat \<times> request) list \<Rightarrow> store \<Rightarrow> response list \<times> store" where
  "run [] s = ([], s)"
| "run ((now, r) # rs) s =
     (case handle now r s of
        (resp, s') \<Rightarrow> (case run rs s' of (resps, s'') \<Rightarrow> (resp # resps, s'')))"

section \<open>The client cache (src/public/js/model.js)\<close>

text \<open>
  A call of \<open>notifyObservers(event, data)\<close>: the name of the callback slot with its argument.
  \<open>OnError\<close> carries the error whose \<open>message\<close> is passed to the observers.
\<close>

datatype event =
    OnLoadingChange bool
  | OnLoadingStart
  | OnLoadingEnd
  | OnPostsLoaded "post list"
  | OnPostCreated post
  | OnPostUpdated post
  | OnPostDeleted jsnum
  | OnError thrown

text \<open>
  The state of a \<open>BlogModel\<close>: the cached posts and the loading flag. \<open>emitted\<close> is the trace
  of the notifications sent to the observers so far, oldest first.
\<close>

record model =
  posts :: "post list"
  isLoading :: bool
  emitted :: "event list"

definition notifyObservers :: "event \<Rightarrow> model \<Rightarrow> model" where
  "notifyObservers ev m = m\<lparr>emitted := emitted m @ [ev]\<rparr>"

definition setLoading :: "bool \<Rightarrow> model \<Rightarrow> model" where
  "setLoading loading m = notifyObservers (OnLoadingChange loading) (m\<lparr>isLoading := loading\<rparr>)"

text \<open>The model as its constructor leaves it.\<close>

definition init_model :: model where
  "init_model = \<lparr>posts = [], isLoading = False, emitted = []\<rparr>"

text \<open>
  What \<open>await fetch(...)\<close> and the reading of the response come to, by the branch the caller
  takes: \<open>fetch\<close> rejects with a message; the response is not \<open>ok\<close>, with its status and the
  \<open>error\<close> property of its body when the body parses and the property is truthy; the
  response is \<open>ok\<close> and \<open>response.json()\<close> yields a value; the response is \<open>ok\<close> and
  \<open>response.json()\<close> rejects with a message.
\<close>

datatype 'a fetched =
    Rejected string
  | NotOk nat "string option"
  | OkJson 'a
  | OkNoJson string

subsection \<open>Helpers\<close>

text \<open>The decimal digits of \<open>response.status\<close> inside a template string.\<close>

fun show_nat :: "nat \<Rightarrow> string" where
  "show_nat n =
     (if n < 10 then [''0123456789'' ! n]
      else show_nat (n div 10) @ [''0123456789'' ! (n mod 10)])"

text \<open>\<open>Array.prototype.join\<close>\<close>

fun join :: "string \<Rightarrow> string list \<Rightarrow> string" where
  "join sep [] = []"
| "join sep [x] = x"
| "join sep (x # y # ys) = x @ sep @ join sep (y # ys)"

text \<open>\<open>Array.prototype.findIndex\<close>, with \<open>None\<close> for \<open>-1\<close>.\<close>

fun findIndex :: "('a \<Rightarrow> bool) \<Rightarrow> 'a list \<Rightarrow> nat option" where
  "findIndex P [] = None"
| "findIndex P (x # xs) = (if P x then Some 0 else map_option Suc (findIndex P xs))"

text \<open>\<open>Number(p.id) === id\<close>\<close>

definition same_id :: "jsnum \<Rightarrow> post \<Rightarrow> bool" where
  "same_id n p = (Finite (of_int (post_id p)) = n)"

text \<open>Truthiness of a value, as \<open>!postData.title\<close> tests it.\<close>

fun truthy :: "jsval \<Rightarrow> bool" where
  "truthy Undefined = False"
| "truthy Null = False"
| "truthy (Str s) = (s \<noteq> [])"
| "truthy (Bool b) = b"
| "truthy (Num n) = (n \<noteq> NaN \<and> n \<noteq> Finite 0)"
| "truthy Object = True"

text \<open>
  One field of \<open>validatePostData\<close>: the messages it pushes. A truthy value that is not a
  string has no \<open>trim\<close> method.
\<close>

definition validate_field :: "string \<Rightarrow> string \<Rightarrow> nat \<Rightarrow> jsval \<Rightarrow> thrown + string list" where
  "validate_field required too_short least v =
     (if \<not> truthy v then Inr [required]
      else (case v of
              Str s \<Rightarrow>
                if length (trim s) = 0 then Inr [required]
                else if length (trim s) < least then Inr [too_short]
                else Inr []
            | _ \<Rightarrow> Inl TypeError))"

definition validatePostData :: "jsval \<Rightarrow> jsval \<Rightarrow> thrown + string list" where
  "validatePostData t c =
     (case validate_field ''Title is required''
             ''Title must be at least 3 characters long'' 3 t of
        Inl e \<Rightarrow> Inl e
      | Inr errs1 \<Rightarrow>
          (case validate_field ''Content is required''
                  ''Content must be at least 10 characters long'' 10 c of
             Inl e \<Rightarrow> Inl e
           | Inr errs2 \<Rightarrow> Inr (errs1 @ errs2)))"

text \<open>
  The \<open>catch\<close> block that the four operations share: notify \<open>onError\<close> with the message and
  throw the error again.
\<close>

definition catch_notify :: "(thrown + 'a) \<times> model \<Rightarrow> (thrown + 'a) \<times> model" where
  "catch_notify rm =
     (case rm of
        (Inl e, m) \<Rightarrow> (Inl e, notifyObservers (OnError e) m)
      | (Inr v, m) \<Rightarrow> (Inr v, m))"

subsection \<open>\<open>loadPosts\<close>\<close>

definition load_try :: "post list fetched \<Rightarrow> model \<Rightarrow> (thrown + post list) \<times> model" where
  "load_try r m =
     (case r of
        Rejected msg \<Rightarrow> (Inl (JsError msg), m)
      | NotOk st e \<Rightarrow> (Inl (JsError (''Failed to load posts (HTTP '' @ show_nat st @ '')'')), m)
      | OkNoJson msg \<Rightarrow> (Inl (JsError msg), m)
      | OkJson ps \<Rightarrow> (Inr ps, notifyObservers (OnPostsLoaded ps) (m\<lparr>posts := ps\<rparr>)))"

definition loadPosts :: "post list fetched \<Rightarrow> model \<Rightarrow> (thrown + post list) \<times> model" where
  "loadPosts r m =
     (case catch_notify (load_try r (notifyObservers OnLoadingStart (setLoading True m))) of
        (res, m') \<Rightarrow> (res, notifyObservers OnLoadingEnd (setLoading False m')))"

subsection \<open>\<open>createPost\<close>\<close>

definition create_try :: "jsval \<Rightarrow> jsval \<Rightarrow> post fetched \<Rightarrow> model \<Rightarrow> (thrown + post) \<times> model" where
  "create_try t c r m =
     (case validatePostData t c of
        Inl e \<Rightarrow> (Inl e, m)
      | Inr validationErrors \<Rightarrow>
          if length validationErrors > 0 then (Inl (JsError (join ''. '' validationErrors)), m)
          else (case r of
                  Rejected msg \<Rightarrow> (Inl (JsError msg), m)
                | NotOk st e \<Rightarrow>
                    (Inl (JsError (case e of
                                     Some message \<Rightarrow> message
                                   | None \<Rightarrow> ''Failed to create post (HTTP '' @ show_nat st @ '')'')),
                     m)
                | OkNoJson msg \<Rightarrow> (Inl (JsError msg), m)
                | OkJson newPost \<Rightarrow>
                    (Inr newPost,
                     notifyObservers (OnPostCreated newPost) (m\<lparr>posts := newPost # posts m\<rparr>))))"

definition createPost :: "jsval \<Rightarrow> jsval \<Rightarrow> post fetched \<Rightarrow> model \<Rightarrow> (thrown + post) \<times> model" where
  "createPost t c r m =
     (case catch_notify (create_try t c r (setLoading True m)) of
        (res, m') \<Rightarrow> (res, setLoading False m'))"

subsection \<open>\<open>updatePost\<close>\<close>

text \<open>The first argument is \<open>Number(postId)\<close>.\<close>

definition update_try ::
  "jsnum \<Rightarrow> jsval \<Rightarrow> jsval \<Rightarrow> post fetched \<Rightarrow> model \<Rightarrow> (thrown + post) \<times> model" where
  "update_try n t c r m =
     (if \<not> isFinite n then (Inl (JsError ''Invalid post id''), m)
      else (case validatePostData t c of
        Inl e \<Rightarrow> (Inl e, m)
      | Inr validationErrors \<Rightarrow>
          if length validationErrors > 0 then (Inl (JsError (join ''. '' validationErrors)), m)
          else (case r of
                  Rejected msg \<Rightarrow> (Inl (JsError msg), m)
                | NotOk st e \<Rightarrow>
                    (Inl (JsError (case e of
                                     Some message \<Rightarrow> message
                                   | None \<Rightarrow> ''Failed to update post (HTTP '' @ show_nat st @ '')'')),
                     m)
                | OkNoJson msg \<Rightarrow> (Inl (JsError msg), m)
                | OkJson updatedPost \<Rightarrow>
                    (Inr updatedPost,
                     notifyObservers (OnPostUpdated updatedPost)
                       (case findIndex (same_id n) (posts m) of
                          None \<Rightarrow> m
                        | Some idx \<Rightarrow> m\<lparr>posts := (posts m)[idx := updatedPost]\<rparr>)))))"

definition updatePost ::
  "jsnum \<Rightarrow> jsval \<Rightarrow> jsval \<Rightarrow> post fetched \<Rightarrow> model \<Rightarrow> (thrown + post) \<times> model" where
  "updatePost n t c r m =
     (case catch_notify (update_try n t c r (setLoading True m)) of
        (res, m') \<Rightarrow> (res, setLoading False m'))"

subsection \<open>\<open>deletePost\<close>\<close>

definition delete_done :: "jsnum \<Rightarrow> model \<Rightarrow> (thrown + bool) \<times> model" where
  "delete_done n m =
     (Inr True,
      notifyObservers (OnPostDeleted n) (m\<lparr>posts := filter (\<lambda>p. \<not> same_id n p) (posts m)\<rparr>))"

definition delete_try :: "jsnum \<Rightarrow> 'a fetched \<Rightarrow> model \<Rightarrow> (thrown + bool) \<times> model" where
  "delete_try n r m =
     (if \<not> isFinite n then (Inl (JsError ''Invalid post id''), m)
      else (case r of
              Rejected msg \<Rightarrow> (Inl (JsError msg), m)
            | NotOk st e \<Rightarrow>
                if st \<noteq> 204 then
                  (Inl (JsError (case e of
                                   Some message \<Rightarrow> message
                                 | None \<Rightarrow> ''Failed to delete post (HTTP '' @ show_nat st @ '')'')),
                   m)
                else delete_done n m
            | OkNoJson msg \<Rightarrow> delete_done n m
            | OkJson v \<Rightarrow> delete_done n m))"

definition deletePost :: "jsnum \<Rightarrow> 'a fetched \<Rightarrow> model \<Rightarrow> (thrown + bool) \<times> model" where
  "deletePost n r m =
     (case catch_notify (delete_try n r (setLoading True m)) of
        (res, m') \<Rightarrow> (res, setLoading False m'))"

section \<open>Vocabulary of the properties\<close>

text \<open>
  A field is \<open>blank\<close> when it is absent, null or a string that is empty after trimming, and
  \<open>present\<close> when it is a string that is not empty after trimming.
\<close>

definition blank :: "jsval \<Rightarrow> bool" where
  "blank v = (case v of Undefined \<Rightarrow> True | Null \<Rightarrow> True | Str s \<Rightarrow> trim s = [] | _ \<Rightarrow> False)"

definition present :: "jsval \<Rightarrow> bool" where
  "present v = (case v of Str s \<Rightarrow> trim s \<noteq> [] | _ \<Rightarrow> False)"

text \<open>
  What the database engine maintains for a table with an \<open>INTEGER PRIMARY KEY AUTOINCREMENT\<close>
  column: the ids of the rows differ, they are positive, and none exceeds the recorded
  sequence value.
\<close>

definition wf :: "store \<Rightarrow> bool" where
  "wf s = (distinct (map post_id (rows s)) \<and>
           list_all (\<lambda>p. 0 < post_id p \<and> post_id p \<le> seq s) (rows s) \<and> 0 \<le> seq s)"

text \<open>A post with both timestamps set and in order.\<close>

definition stamped :: "post \<Rightarrow> bool" where
  "stamped p =
     (case created_at p of
        None \<Rightarrow> False
      | Some a \<Rightarrow> (case updated_at p of None \<Rightarrow> False | Some b \<Rightarrow> a \<le> b))"

text \<open>The posts that a response shows.\<close>

fun visible :: "response \<Rightarrow> post list" where
  "visible (Resp st (Rows xs)) = xs"
| "visible (Resp st (Row r)) = [r]"
| "visible (Resp st b) = []"

text \<open>The posts returned by the successful creates among a list of responses, in order.\<close>

definition created :: "response list \<Rightarrow> post list" where
  "created resps = concat (map (\<lambda>r. if status r = 201 then visible r else []) resps)"

fun is_create :: "request \<Rightarrow> bool" where
  "is_create (Create b) = True"
| "is_create r = False"

text \<open>The notifications about the loading state.\<close>

fun is_loading_event :: "event \<Rightarrow> bool" where
  "is_loading_event (OnLoadingChange b) = True"
| "is_loading_event OnLoadingStart = True"
| "is_loading_event OnLoadingEnd = True"
| "is_loading_event e = False"

text \<open>A store with two posts, for the examples.\<close>

definition two_posts :: store where
  "two_posts =
     \<lparr>rows = [\<lparr>post_id = 1, title = ''Hello'', content = ''This is a test post'',
                created_at = Some 10, updated_at = Some 10\<rparr>,
              \<lparr>post_id = 2, title = ''Second'', content = ''Another test post'',
                created_at = Some 20, updated_at = Some 20\<rparr>],
      seq = 2, defaults = True\<rparr>"

text \<open>
  A store whose only post has the id \<open>2^53\<close>, the same store after one more create, and a
  table made by the earlier server with no rows, for the examples.
\<close>

definition big_store :: store where
  "big_store =
     \<lparr>rows = [\<lparr>post_id = 9007199254740992, title = ''Old'', content = ''An older post'',
                created_at = Some 10, updated_at = Some 20\<rparr>],
      seq = 9007199254740992, defaults = True\<rparr>"

definition twin_store :: store where
  "twin_store =
     \<lparr>rows = [\<lparr>post_id = 9007199254740992, title = ''Old'', content = ''An older post'',
                created_at = Some 10, updated_at = Some 20\<rparr>,
              \<lparr>post_id = 9007199254740993, title = ''New'', content = ''A newer post'',
                created_at = Some 30, updated_at = Some 30\<rparr>],
      seq = 9007199254740993, defaults = True\<rparr>"


text \<open>Posts and a loaded cache, for the examples.\<close>

definition hello_post :: post where
  "hello_post = \<lparr>post_id = 1, title = ''Hello'', content = ''This is a test post'',
                  created_at = Some 10, updated_at = Some 10\<rparr>"

definition second_post :: post where
  "second_post = \<lparr>post_id = 2, title = ''Second'', content = ''Another test post'',
                   created_at = Some 20, updated_at = Some 20\<rparr>"

definition edited_post :: post where
  "edited_post = \<lparr>post_id = 1, title = ''New'', content = ''Changed content'',
                   created_at = Some 10, updated_at = Some 30\<rparr>"

definition loaded_model :: model where
  "loaded_model = \<lparr>posts = [second_post, hello_post], isLoading = False, emitted = []\<rparr>"

section \<open>Lemmas about strings\<close>

lemma dropWhile_rev_trim:
  "dropWhile P (rev (dropWhile P (rev (dropWhile P s)))) = rev (dropWhile P (rev (dropWhile P s)))"
proof -
  let ?a = "dropWhile P s"
  let ?b = "dropWhile P (rev ?a)"
  show ?thesis
  proof (cases "?b = []")
    case True
    show ?thesis by (simp only: True rev.simps dropWhile.simps)
  next
    case False
    have "rev (takeWhile P (rev ?a) @ ?b) = rev (rev ?a)"
      by (simp only: takeWhile_dropWhile_id)
    then have split: "?a = rev ?b @ rev (takeWhile P (rev ?a))"
      by (simp only: rev_append rev_rev_ident)
    from False have nb: "rev ?b \<noteq> []" by simp
    from split nb have "hd ?a = hd (rev ?b)" by (metis hd_append2)
    moreover from split nb have "?a \<noteq> []" by (metis append_is_Nil_conv)
    then have "\<not> P (hd ?a)" by (rule hd_dropWhile)
    ultimately have "\<not> P (hd (rev ?b))" by simp
    then show ?thesis by (simp add: dropWhile_eq_self_iff)
  qed
qed

lemma trim_idem: "trim (trim s) = trim s"
  by (simp add: trim_def dropWhile_rev_trim)

section \<open>Lemmas about numbers and rows\<close>

lemma to_double_exact: "\<bar>k\<bar> \<le> two53 \<Longrightarrow> to_double k = k"
  by (simp add: to_double_def)

lemma to_js_exact: "\<bar>post_id p\<bar> \<le> two53 \<Longrightarrow> to_js p = p"
  by (simp add: to_js_def to_double_exact)

lemma to_js_fields [simp]:
  "title (to_js p) = title p" "content (to_js p) = content p"
  "created_at (to_js p) = created_at p" "updated_at (to_js p) = updated_at p"
  by (simp_all add: to_js_def)

lemma map_to_js_exact: "\<forall>p\<in>set xs. \<bar>post_id p\<bar> \<le> two53 \<Longrightarrow> map to_js xs = xs"
  by (induction xs) (simp_all add: to_js_exact)

lemma stamped_to_js [simp]: "stamped (to_js p) = stamped p"
  by (cases "created_at p") (simp_all add: stamped_def)

lemma wf_exact: "wf s \<Longrightarrow> seq s \<le> two53 \<Longrightarrow> p \<in> set (rows s) \<Longrightarrow> \<bar>post_id p\<bar> \<le> two53"
  by (fastforce simp: wf_def list_all_iff)

lemma wf_to_js: "wf s \<Longrightarrow> seq s \<le> two53 \<Longrightarrow> p \<in> set (rows s) \<Longrightarrow> to_js p = p"
  by (rule to_js_exact) (rule wf_exact)

section \<open>Lemmas about the store\<close>

lemma checked_blank: "blank t \<or> (present t \<and> blank c) \<Longrightarrow> checked t c = Inr None"
  by (cases t; cases c) (auto simp: blank_def present_def checked_def falsy_def)

lemma checked_present:
  "present t \<Longrightarrow> present c \<Longrightarrow> \<exists>a b. t = Str a \<and> c = Str b \<and> checked t c = Inr (Some (trim a, trim b))"
  by (cases t; cases c) (auto simp: present_def checked_def falsy_def)

lemma checked_SomeD:
  "checked t c = Inr (Some (t', c')) \<Longrightarrow>
     \<exists>a b. t = Str a \<and> c = Str b \<and> t' = trim a \<and> c' = trim b \<and> trim a \<noteq> [] \<and> trim b \<noteq> []"
  by (cases t; cases c) (auto simp: checked_def falsy_def split: if_splits)

lemma fold_max_ge: "(m::int) \<le> fold max xs m"
  by (induction xs arbitrary: m) (auto intro: order_trans[OF max.cobounded2])

lemma fold_max_mem: "x \<in> set xs \<Longrightarrow> (x::int) \<le> fold max xs m"
  by (induction xs arbitrary: m) (auto intro: order_trans[OF max.cobounded1 fold_max_ge])

lemma largest_rowid_seq: "seq s \<le> largest_rowid s"
  by (simp add: largest_rowid_def fold_max_ge)

lemma largest_rowid_row: "p \<in> set (rows s) \<Longrightarrow> post_id p \<le> largest_rowid s"
  by (simp add: largest_rowid_def fold_max_mem)

lemma fold_max_bounded: "\<forall>x\<in>set xs. x \<le> (m::int) \<Longrightarrow> fold max xs m = m"
  by (induction xs) (auto simp: max_def)

lemma largest_rowid_wf: "wf s \<Longrightarrow> largest_rowid s = seq s"
  by (simp add: wf_def largest_rowid_def fold_max_bounded list_all_iff)

lemma id_eq_of_int [simp]: "id_eq (Finite (of_int k)) p \<longleftrightarrow> post_id p = k"
  by (simp add: id_eq_def)

lemma id_eq_finite: "id_eq n p \<Longrightarrow> isFinite n"
  by (cases n) (auto simp: id_eq_def isFinite_def)

lemma id_eq_cong: "post_id p = post_id q \<Longrightarrow> id_eq n p = id_eq n q"
  by (cases n) (auto simp: id_eq_def)

lemma inserted_row_fields [simp]:
  "post_id (inserted_row now t c s) = largest_rowid s + 1"
  "title (inserted_row now t c s) = t" "content (inserted_row now t c s) = c"
  by (simp_all add: inserted_row_def)

lemma insert_post_Some:
  "largest_rowid s < max_rowid \<Longrightarrow>
   insert_post now t c s = Some (largest_rowid s + 1,
      s\<lparr>rows := rows s @ [inserted_row now t c s], seq := largest_rowid s + 1\<rparr>)"
  by (simp add: insert_post_def)

lemma insert_post_SomeD:
  "insert_post now t c s = Some (k, s') \<Longrightarrow>
   largest_rowid s < max_rowid \<and> k = largest_rowid s + 1 \<and>
   s' = s\<lparr>rows := rows s @ [inserted_row now t c s], seq := largest_rowid s + 1\<rparr>"
  by (auto simp: insert_post_def split: if_splits)

lemma find_fresh_last:
  "\<forall>p\<in>set xs. \<not> P p \<Longrightarrow> P x \<Longrightarrow> find P (xs @ [x]) = Some x"
  by (induction xs) auto

lemma find_inserted:
  "find (id_eq (Finite (of_int (largest_rowid s + 1)))) (rows s @ [inserted_row now t c s])
     = Some (inserted_row now t c s)"
proof -
  have "\<forall>p\<in>set (rows s). \<not> id_eq (Finite (of_int (largest_rowid s + 1))) p"
  proof
    fix p assume "p \<in> set (rows s)"
    then have "post_id p \<le> largest_rowid s" by (rule largest_rowid_row)
    then have "post_id p \<noteq> largest_rowid s + 1" by simp
    then show "\<not> id_eq (Finite (of_int (largest_rowid s + 1))) p"
      by (simp only: id_eq_of_int not_False_eq_True)
  qed
  moreover have "id_eq (Finite (of_int (largest_rowid s + 1))) (inserted_row now t c s)"
    by (simp only: id_eq_of_int inserted_row_fields)
  ultimately show ?thesis by (rule find_fresh_last)
qed

text \<open>
  The lookup by \<open>lastID\<close> after an insertion finds the new row when its id is exact, and in
  any case a row of the new table.
\<close>

lemma select_inserted:
  assumes "\<bar>largest_rowid s + 1\<bar> \<le> two53"
  shows "select_by_id (Finite (of_int (to_double (largest_rowid s + 1))))
           (s\<lparr>rows := rows s @ [inserted_row now t c s], seq := largest_rowid s + 1\<rparr>)
         = Some (inserted_row now t c s)"
proof -
  have j: "to_js (inserted_row now t c s) = inserted_row now t c s"
    using assms by (simp add: to_js_exact)
  have e: "to_double (largest_rowid s + 1) = largest_rowid s + 1"
    using assms by (rule to_double_exact)
  have rw: "rows (s\<lparr>rows := rows s @ [inserted_row now t c s], seq := largest_rowid s + 1\<rparr>)
              = rows s @ [inserted_row now t c s]" by simp
  show ?thesis
    unfolding select_by_id_def e rw find_inserted using j by simp
qed

lemma select_by_id_mem:
  "select_by_id n s = Some r \<Longrightarrow> \<exists>p\<in>set (rows s). id_eq n p \<and> r = to_js p"
  by (auto simp: select_by_id_def find_Some_iff)

lemma create_post_cases:
  assumes "create_post now b s = (r, s')"
  shows "(s' = s \<and> visible r = [] \<and> status r \<noteq> 201 \<and> status r \<noteq> 200) \<or>
     (\<exists>a d. b = Body (Str a) (Str d) \<and> trim a \<noteq> [] \<and> trim d \<noteq> [] \<and>
        largest_rowid s < max_rowid \<and> status r = 201 \<and>
        s' = s\<lparr>rows := rows s @ [inserted_row now (trim a) (trim d) s],
               seq := largest_rowid s + 1\<rparr> \<and>
        set (visible r) \<subseteq> to_js ` set (rows s') \<and>
        (\<bar>largest_rowid s + 1\<bar> \<le> two53 \<longrightarrow>
           r = Resp 201 (Row (inserted_row now (trim a) (trim d) s))))"
proof (cases b)
  case NoBody
  with assms show ?thesis by (auto simp: create_post_def)
next
  case (Body t c)
  show ?thesis
  proof (cases "checked t c")
    case (Inl e)
    with assms Body show ?thesis by (auto simp: create_post_def)
  next
    case (Inr v)
    show ?thesis
    proof (cases v)
      case None
      with Inr assms Body show ?thesis by (auto simp: create_post_def)
    next
      case (Some tc)
      obtain t' c' where tc: "tc = (t', c')" by (cases tc)
      from Inr Some tc have ch: "checked t c = Inr (Some (t', c'))" by simp
      from checked_SomeD[OF ch] obtain a d where
        ad: "t = Str a" "c = Str d" "t' = trim a" "c' = trim d" "trim a \<noteq> []" "trim d \<noteq> []"
        by blast
      show ?thesis
      proof (cases "insert_post now t' c' s")
        case None
        with ch assms Body show ?thesis by (auto simp: create_post_def)
      next
        case (Some ks)
        obtain k s1 where ks: "ks = (k, s1)" by (cases ks)
        from Some ks have ins: "insert_post now t' c' s = Some (k, s1)" by simp
        from insert_post_SomeD[OF ins] have
          l: "largest_rowid s < max_rowid" and k: "k = largest_rowid s + 1"
          and s1: "s1 = s\<lparr>rows := rows s @ [inserted_row now t' c' s], seq := largest_rowid s + 1\<rparr>"
          by simp_all
        let ?sel = "select_by_id (Finite (of_int (to_double k))) s1"
        have r: "r = (case ?sel of None \<Rightarrow> Resp 201 NoRow | Some row \<Rightarrow> Resp 201 (Row row))"
          and s': "s' = s1"
          using assms Body ch ins by (auto simp: create_post_def split: option.splits)
        from r have st: "status r = 201" by (simp split: option.splits)
        have vis: "set (visible r) \<subseteq> to_js ` set (rows s')"
        proof (cases ?sel)
          case None
          with r show ?thesis by simp
        next
          case (Some row)
          from select_by_id_mem[OF Some] r Some s' show ?thesis by auto
        qed
        have ex: "r = Resp 201 (Row (inserted_row now t' c' s))" if "\<bar>largest_rowid s + 1\<bar> \<le> two53"
          using select_inserted[OF that, of now t' c'] r by (simp add: k s1)
        from Body ad l st s' s1 vis ex show ?thesis by auto
      qed
    qed
  qed
qed

lemma create_post_blank:
  "checked t c = Inr None \<Longrightarrow>
   create_post now (Body t c) s = (Resp 400 (ErrorJson ''Title and content required''), s)"
  by (simp add: create_post_def)

lemma create_post_status:
  assumes "checked t c = Inr (Some (t', c'))" and "largest_rowid s < max_rowid"
  shows "status (fst (create_post now (Body t c) s)) = 201"
  using assms by (simp add: create_post_def insert_post_Some split: option.splits)

lemma create_post_ok:
  assumes "checked t c = Inr (Some (t', c'))" and "\<bar>largest_rowid s + 1\<bar> \<le> two53"
  shows "create_post now (Body t c) s =
     (Resp 201 (Row (inserted_row now t' c' s)),
      s\<lparr>rows := rows s @ [inserted_row now t' c' s], seq := largest_rowid s + 1\<rparr>)"
proof -
  from assms(2) have "largest_rowid s < max_rowid" by (simp add: two53_def max_rowid_def)
  then have ins: "insert_post now t' c' s = Some (largest_rowid s + 1,
      s\<lparr>rows := rows s @ [inserted_row now t' c' s], seq := largest_rowid s + 1\<rparr>)"
    by (rule insert_post_Some)
  from select_inserted[OF assms(2), of now t' c'] assms(1) ins show ?thesis
    by (simp add: create_post_def)
qed

lemma find_map_upd:
  "(\<And>p. P (f p) = P p) \<Longrightarrow>
   find P (map (\<lambda>p. if P p then f p else p) xs) = map_option f (find P xs)"
  by (induction xs) auto

lemma map_upd_none: "\<forall>p\<in>set xs. \<not> P p \<Longrightarrow> map (\<lambda>p. if P p then f p else p) xs = xs"
  by (induction xs) auto

lemma filter_none: "\<forall>p\<in>set xs. \<not> P p \<Longrightarrow> filter (\<lambda>p. \<not> P p) xs = xs"
  by (induction xs) auto

lemma id_eq_upd [simp]:
  "id_eq n (p\<lparr>title := t, content := c, updated_at := u\<rparr>) = id_eq n p"
  by (rule id_eq_cong) simp

lemma to_js_upd:
  "to_js (p\<lparr>title := t, content := c, updated_at := u\<rparr>)
     = (to_js p)\<lparr>title := t, content := c, updated_at := u\<rparr>"
  by (simp add: to_js_def)

lemma select_by_id_None: "select_by_id n s = None \<longleftrightarrow> (\<forall>p\<in>set (rows s). \<not> id_eq n p)"
  by (auto simp: select_by_id_def find_None_iff)

lemma update_rows_none:
  "\<forall>p\<in>set (rows s). \<not> id_eq n p \<Longrightarrow> update_rows now t c n s = (0, s)"
  by (simp add: update_rows_def map_upd_none filter_empty_conv)

text \<open>The store after an \<open>UPDATE\<close> that matches.\<close>

lemma select_updated:
  assumes "select_by_id n s = Some r0"
  shows "select_by_id n
           (s\<lparr>rows := map (\<lambda>p. if id_eq n p
                                then p\<lparr>title := t, content := c, updated_at := Some now\<rparr> else p)
                        (rows s)\<rparr>)
         = Some (r0\<lparr>title := t, content := c, updated_at := Some now\<rparr>)"
proof -
  have "find (id_eq n) (map (\<lambda>p. if id_eq n p
                                then p\<lparr>title := t, content := c, updated_at := Some now\<rparr> else p)
                        (rows s))
        = map_option (\<lambda>p. p\<lparr>title := t, content := c, updated_at := Some now\<rparr>)
            (find (id_eq n) (rows s))"
    by (rule find_map_upd) simp
  with assms show ?thesis
    by (auto simp: select_by_id_def to_js_upd)
qed

lemma update_post_invalid_id:
  "\<not> isFinite n \<Longrightarrow> update_post now n (Body t c) s = (Resp 400 (ErrorJson ''Invalid id''), s)"
  by (simp add: update_post_def)

lemma update_post_blank:
  "isFinite n \<Longrightarrow> checked t c = Inr None \<Longrightarrow>
   update_post now n (Body t c) s = (Resp 400 (ErrorJson ''Title and content required''), s)"
  by (simp add: update_post_def)

lemma update_post_missing:
  "isFinite n \<Longrightarrow> checked t c = Inr (Some (t', c')) \<Longrightarrow> \<forall>p\<in>set (rows s). \<not> id_eq n p \<Longrightarrow>
   update_post now n (Body t c) s = (Resp 404 (ErrorJson ''Not found''), s)"
  by (simp add: update_post_def update_rows_none)

lemma update_post_found:
  assumes "checked t c = Inr (Some (t', c'))" and "p \<in> set (rows s)" and "id_eq n p"
  shows "\<exists>r0. select_by_id n s = Some r0 \<and>
     update_post now n (Body t c) s =
       (Resp 200 (Row (r0\<lparr>title := t', content := c', updated_at := Some now\<rparr>)),
        s\<lparr>rows := map (\<lambda>p. if id_eq n p
                             then p\<lparr>title := t', content := c', updated_at := Some now\<rparr> else p)
                     (rows s)\<rparr>)"
proof -
  from assms(3) have fin: "isFinite n" by (rule id_eq_finite)
  from assms(2,3) have "select_by_id n s \<noteq> None" by (auto simp: select_by_id_None)
  then obtain r0 where r0: "select_by_id n s = Some r0" by blast
  from assms(2,3) have "filter (id_eq n) (rows s) \<noteq> []" by (auto simp: filter_empty_conv)
  then have pos: "0 < length (filter (id_eq n) (rows s))" by simp
  from select_updated[OF r0, where t = t' and c = c' and now = now] fin assms(1) pos
  have "update_post now n (Body t c) s =
       (Resp 200 (Row (r0\<lparr>title := t', content := c', updated_at := Some now\<rparr>)),
        s\<lparr>rows := map (\<lambda>p. if id_eq n p
                             then p\<lparr>title := t', content := c', updated_at := Some now\<rparr> else p)
                     (rows s)\<rparr>)"
    by (simp add: update_post_def update_rows_def)
  with r0 show ?thesis by blast
qed

lemma update_post_cases:
  assumes "update_post now n b s = (resp, s')"
  shows "(s' = s \<and> visible resp = [] \<and> status resp \<noteq> 201 \<and> status resp \<noteq> 200) \<or>
     (\<exists>a d r0. b = Body (Str a) (Str d) \<and>
        resp = Resp 200 (Row (r0\<lparr>title := trim a, content := trim d, updated_at := Some now\<rparr>)) \<and>
        select_by_id n s = Some r0 \<and>
        s' = s\<lparr>rows := map (\<lambda>p. if id_eq n p
                                 then p\<lparr>title := trim a, content := trim d, updated_at := Some now\<rparr>
                                 else p)
                         (rows s)\<rparr>)"
proof (cases b)
  case NoBody
  with assms show ?thesis by (auto simp: update_post_def)
next
  case (Body t c)
  show ?thesis
  proof (cases "isFinite n")
    case False
    with assms Body show ?thesis by (auto simp: update_post_def)
  next
    case fin: True
    show ?thesis
    proof (cases "checked t c")
      case (Inl e)
      with assms Body fin show ?thesis by (auto simp: update_post_def)
    next
      case (Inr v)
      show ?thesis
      proof (cases v)
        case None
        with Inr assms Body fin show ?thesis by (auto simp: update_post_def)
      next
        case (Some tc)
        obtain t' c' where "tc = (t', c')" by (cases tc)
        with Inr Some have ch: "checked t c = Inr (Some (t', c'))" by simp
        from checked_SomeD[OF ch] obtain a d where
          ad: "t = Str a" "c = Str d" "t' = trim a" "c' = trim d" by blast
        show ?thesis
        proof (cases "\<exists>p\<in>set (rows s). id_eq n p")
          case False
          then have "update_post now n (Body t c) s = (Resp 404 (ErrorJson ''Not found''), s)"
            using fin ch by (simp add: update_post_missing)
          with assms Body show ?thesis by auto
        next
          case True
          then obtain p where p: "p \<in> set (rows s)" "id_eq n p" by blast
          from update_post_found[OF ch p, of now] assms Body ad show ?thesis by auto
        qed
      qed
    qed
  qed
qed

lemma update_post_404D:
  assumes "status (fst (update_post now n b s)) = 404"
  shows "snd (update_post now n b s) = s"
proof -
  obtain resp s' where e: "update_post now n b s = (resp, s')" by (cases "update_post now n b s")
  from update_post_cases[OF e] assms e show ?thesis by auto
qed

lemma get_post_invalid_id: "\<not> isFinite n \<Longrightarrow> get_post n s = Resp 400 (ErrorJson ''Invalid id'')"
  by (simp add: get_post_def)

lemma get_post_missing:
  "isFinite n \<Longrightarrow> \<forall>p\<in>set (rows s). \<not> id_eq n p \<Longrightarrow> get_post n s = Resp 404 (ErrorJson ''Not found'')"
  by (simp add: get_post_def select_by_id_None[THEN iffD2])

lemma get_post_found:
  "select_by_id n s = Some r \<Longrightarrow> get_post n s = Resp 200 (Row r)"
proof -
  assume a: "select_by_id n s = Some r"
  from select_by_id_mem[OF a] have "isFinite n" by (auto dest: id_eq_finite)
  with a show ?thesis by (simp add: get_post_def)
qed

lemma delete_post_invalid_id:
  "\<not> isFinite n \<Longrightarrow> delete_post n s = (Resp 400 (ErrorJson ''Invalid id''), s)"
  by (simp add: delete_post_def)

lemma delete_post_missing:
  "isFinite n \<Longrightarrow> \<forall>p\<in>set (rows s). \<not> id_eq n p \<Longrightarrow>
   delete_post n s = (Resp 404 (ErrorJson ''Not found''), s)"
  by (simp add: delete_post_def delete_rows_def filter_none filter_empty_conv)

lemma delete_post_found:
  "p \<in> set (rows s) \<Longrightarrow> id_eq n p \<Longrightarrow>
   delete_post n s = (Resp 200 Success, s\<lparr>rows := filter (\<lambda>p. \<not> id_eq n p) (rows s)\<rparr>)"
proof -
  assume a: "p \<in> set (rows s)" "id_eq n p"
  then have "isFinite n" by (auto dest: id_eq_finite)
  moreover from a have "filter (id_eq n) (rows s) \<noteq> []" by (auto simp: filter_empty_conv)
  ultimately show ?thesis by (simp add: delete_post_def delete_rows_def)
qed

lemma delete_post_cases:
  assumes "delete_post n s = (resp, s')"
  shows "(s' = s \<and> visible resp = [] \<and> status resp \<noteq> 201 \<and> status resp \<noteq> 200) \<or>
     (resp = Resp 200 Success \<and> (\<exists>p\<in>set (rows s). id_eq n p) \<and>
      s' = s\<lparr>rows := filter (\<lambda>p. \<not> id_eq n p) (rows s)\<rparr>)"
proof (cases "isFinite n \<and> (\<exists>p\<in>set (rows s). id_eq n p)")
  case True
  then obtain p where "p \<in> set (rows s)" "id_eq n p" by blast
  from delete_post_found[OF this] assms True show ?thesis by auto
next
  case False
  then consider "\<not> isFinite n" | "isFinite n" "\<forall>p\<in>set (rows s). \<not> id_eq n p" by blast
  then show ?thesis
  proof cases
    case 1
    with assms show ?thesis by (auto simp: delete_post_invalid_id)
  next
    case 2
    with assms show ?thesis by (auto simp: delete_post_missing)
  qed
qed

lemma get_post_visible:
  "set (visible (get_post n s)) \<subseteq> to_js ` set (rows s) \<and> status (get_post n s) \<noteq> 201"
  by (auto simp: get_post_def dest: select_by_id_mem split: option.splits)

lemma get_posts_visible:
  "set (visible (get_posts s)) = to_js ` set (rows s) \<and> status (get_posts s) \<noteq> 201"
  by (simp add: get_posts_def select_all_desc_def)

section \<open>One request at a time\<close>

text \<open>What one request does to the store, by the kind of its outcome.\<close>

lemma handle_cases:
  assumes "handle now r s = (resp, s')"
  shows "(s' = s \<and> set (visible resp) \<subseteq> to_js ` set (rows s) \<and> status resp \<noteq> 201) \<or>
     (\<exists>a d. r = Create (Body (Str a) (Str d)) \<and> largest_rowid s < max_rowid \<and>
        status resp = 201 \<and>
        s' = s\<lparr>rows := rows s @ [inserted_row now (trim a) (trim d) s],
               seq := largest_rowid s + 1\<rparr> \<and>
        set (visible resp) \<subseteq> to_js ` set (rows s') \<and>
        (\<bar>largest_rowid s + 1\<bar> \<le> two53 \<longrightarrow>
           resp = Resp 201 (Row (inserted_row now (trim a) (trim d) s)))) \<or>
     (\<exists>n a d r0. r = Update n (Body (Str a) (Str d)) \<and>
        resp = Resp 200 (Row (r0\<lparr>title := trim a, content := trim d, updated_at := Some now\<rparr>)) \<and>
        select_by_id n s = Some r0 \<and>
        s' = s\<lparr>rows := map (\<lambda>p. if id_eq n p
                                 then p\<lparr>title := trim a, content := trim d, updated_at := Some now\<rparr>
                                 else p)
                         (rows s)\<rparr>) \<or>
     (\<exists>n. r = Delete n \<and> resp = Resp 200 Success \<and> (\<exists>p\<in>set (rows s). id_eq n p) \<and>
        s' = s\<lparr>rows := filter (\<lambda>p. \<not> id_eq n p) (rows s)\<rparr>)"
proof (cases r)
  case List
  with assms get_posts_visible[of s] show ?thesis by auto
next
  case (Get n)
  with assms get_post_visible[of n s] show ?thesis by auto
next
  case (Create b)
  with assms have "create_post now b s = (resp, s')" by simp
  from create_post_cases[OF this] Create show ?thesis by auto
next
  case (Update n b)
  with assms have "update_post now n b s = (resp, s')" by simp
  from update_post_cases[OF this] Update show ?thesis by auto
next
  case (Delete n)
  with assms have "delete_post n s = (resp, s')" by simp
  from delete_post_cases[OF this] Delete show ?thesis by auto
qed

lemma run_Cons_E:
  assumes "run ((now, r) # rs) s = (resps, s'')"
  obtains resp s' rest where "handle now r s = (resp, s')" "run rs s' = (rest, s'')" "resps = resp # rest"
  using assms by (auto split: prod.splits)

subsection \<open>Reachable stores are well formed\<close>

lemma wf_init: "wf init_store"
  by (simp add: wf_def init_store_def)

lemma map_post_id_upd:
  "map (post_id \<circ> (\<lambda>p. if P p then p\<lparr>title := t, content := c, updated_at := u\<rparr> else p)) xs
     = map post_id xs"
  by (induction xs) auto

lemma wf_handle:
  assumes "wf s" and "handle now r s = (resp, s')"
  shows "wf s' \<and> seq s \<le> seq s' \<and> defaults s' = defaults s"
proof -
  from assms(1) have d: "distinct (map post_id (rows s))"
    and b: "\<forall>p\<in>set (rows s). 0 < post_id p \<and> post_id p \<le> seq s" and z: "0 \<le> seq s"
    by (simp_all add: wf_def list_all_iff)
  from assms(1) have l: "largest_rowid s = seq s" by (rule largest_rowid_wf)
  from handle_cases[OF assms(2)] show ?thesis
  proof (elim disjE exE conjE)
    assume "s' = s" with assms(1) show ?thesis by simp
  next
    fix a c
    assume "s' = s\<lparr>rows := rows s @ [inserted_row now (trim a) (trim c) s],
               seq := largest_rowid s + 1\<rparr>"
    with d b z l show ?thesis by (fastforce simp: wf_def list_all_iff)
  next
    fix n a c r0
    assume "s' = s\<lparr>rows := map (\<lambda>p. if id_eq n p
                                 then p\<lparr>title := trim a, content := trim c, updated_at := Some now\<rparr>
                                 else p)
                         (rows s)\<rparr>"
    with d b z show ?thesis by (auto simp: wf_def list_all_iff map_post_id_upd)
  next
    fix n
    assume "s' = s\<lparr>rows := filter (\<lambda>p. \<not> id_eq n p) (rows s)\<rparr>"
    with d b z show ?thesis by (auto simp: wf_def list_all_iff distinct_map_filter)
  qed
qed

lemma wf_run:
  "wf s \<Longrightarrow> run reqs s = (resps, s') \<Longrightarrow> wf s' \<and> seq s \<le> seq s' \<and> defaults s' = defaults s"
proof (induction reqs arbitrary: s resps)
  case Nil
  then show ?case by simp
next
  case (Cons a reqs)
  obtain now r where a: "a = (now, r)" by (cases a)
  from Cons.prems(2)[unfolded a] obtain resp s1 rest where
    h: "handle now r s = (resp, s1)" and rr: "run reqs s1 = (rest, s')"
    by (rule run_Cons_E)
  from wf_handle[OF Cons.prems(1) h] have 1: "wf s1" "seq s \<le> seq s1" "defaults s1 = defaults s"
    by simp_all
  from Cons.IH[OF 1(1) rr] 1 show ?case by simp
qed

lemma reachable_wf:
  "run reqs init_store = (resps, s) \<Longrightarrow> wf s \<and> defaults s"
  using wf_run[OF wf_init, of reqs resps s] by (simp add: init_store_def)

section \<open>Validation boundary\<close>

text \<open>
  Claim C1, as amended. The store checks only that title and content are not empty after
  trimming: a title or content of length 0 after trimming is rejected with status 400 by
  create and by update alike, and every title and content of at least one character after
  trimming is accepted, so that a create answers 201 when an id is left and an update of an
  existing row answers 200.
\<close>

theorem server_validation_boundary:
  "(trim a = [] \<or> trim b = [] \<longrightarrow>
      fst (create_post now (Body (Str a) (Str b)) s) =
        Resp 400 (ErrorJson ''Title and content required'') \<and>
      (isFinite n \<longrightarrow>
         fst (update_post now n (Body (Str a) (Str b)) s) =
           Resp 400 (ErrorJson ''Title and content required'')))
   \<and> (1 \<le> length (trim a) \<and> 1 \<le> length (trim b) \<longrightarrow>
        (largest_rowid s < max_rowid \<longrightarrow>
           status (fst (create_post now (Body (Str a) (Str b)) s)) = 201) \<and>
        ((\<exists>p\<in>set (rows s). id_eq n p) \<longrightarrow>
           status (fst (update_post now n (Body (Str a) (Str b)) s)) = 200))"
proof (intro conjI impI)
  assume e: "trim a = [] \<or> trim b = []"
  then have ch: "checked (Str a) (Str b) = Inr None"
    by (auto simp: checked_def falsy_def)
  show "fst (create_post now (Body (Str a) (Str b)) s) =
          Resp 400 (ErrorJson ''Title and content required'')"
    by (simp add: create_post_blank[OF ch])
  show "fst (update_post now n (Body (Str a) (Str b)) s) =
          Resp 400 (ErrorJson ''Title and content required'')"
    if "isFinite n" by (simp add: update_post_blank[OF that ch])
next
  assume ne: "1 \<le> length (trim a) \<and> 1 \<le> length (trim b)"
  then have "trim a \<noteq> []" "trim b \<noteq> []" by auto
  then have ch: "checked (Str a) (Str b) = Inr (Some (trim a, trim b))"
    by (simp add: checked_def falsy_def)
  show "status (fst (create_post now (Body (Str a) (Str b)) s)) = 201"
    if "largest_rowid s < max_rowid"
    using ch that by (rule create_post_status)
  show "status (fst (update_post now n (Body (Str a) (Str b)) s)) = 200"
    if "\<exists>p\<in>set (rows s). id_eq n p"
  proof -
    from that obtain p where "p \<in> set (rows s)" "id_eq n p" by blast
    from update_post_found[OF ch this, of now] show ?thesis by auto
  qed
qed

text \<open>
  The store accepts a title of length 2 and a content of length 9, on create and on update.
\<close>

theorem accepts_short_fields:
  "length (trim ''ab'') = 2 \<and> length (trim ''123456789'') = 9 \<and>
   fst (create_post 0 (Body (Str ''ab'') (Str ''123456789'')) init_store) =
     Resp 201 (Row \<lparr>post_id = 1, title = ''ab'', content = ''123456789'',
                     created_at = Some 0, updated_at = Some 0\<rparr>) \<and>
   fst (update_post 7 (Finite 1) (Body (Str ''ab'') (Str ''123456789''))
          (snd (create_post 0 (Body (Str ''Hello'') (Str ''This is a test post'')) init_store))) =
     Resp 200 (Row \<lparr>post_id = 1, title = ''ab'', content = ''123456789'',
                     created_at = Some 0, updated_at = Some 7\<rparr>)"
  by (simp add: create_post_def update_post_def checked_def falsy_def trim_def is_space_def
      insert_post_def inserted_row_def largest_rowid_def init_store_def max_rowid_def
      select_by_id_def id_eq_def update_rows_def isFinite_def to_js_def to_double_def two53_def)

theorem server_validation_boundary_witness:
  "fst (create_post 0 (Body (Str ''  '') (Str ''123456789'')) init_store) =
     Resp 400 (ErrorJson ''Title and content required'') \<and>
   fst (update_post 0 (Finite 1) (Body (Str ''  '') (Str ''123456789'')) init_store) =
     Resp 400 (ErrorJson ''Title and content required'') \<and>
   status (fst (create_post 0 (Body (Str ''a'') (Str ''b'')) init_store)) = 201 \<and>
   status (fst (update_post 0 (Finite 1) (Body (Str ''a'') (Str ''b'')) two_posts)) = 200"
  using server_validation_boundary[of "''  ''" "''123456789''" 0 init_store "Finite 1"]
    server_validation_boundary[of "''a''" "''b''" 0 init_store "Finite 1"]
    server_validation_boundary[of "''a''" "''b''" 0 two_posts "Finite 1"]
  by (simp add: trim_def is_space_def isFinite_def largest_rowid_def init_store_def max_rowid_def
      id_eq_def two_posts_def)

section \<open>Round trip\<close>

text \<open>
  Claim C3, as amended. For a title and a content that are not empty after trimming, and
  while the id that the store gives out is at most \<open>2^53\<close>, create answers 201 with a row
  whose title and content are the trimmed inputs; trimming them again changes nothing; the
  row of the response is the one that the \<open>SELECT\<close> by \<open>lastID\<close> reads back from the store
  after the insertion, with the generated id; and get by the returned id yields the same
  row.
\<close>

theorem create_get_round_trip:
  assumes "trim a \<noteq> []" and "trim b \<noteq> []" and "0 \<le> seq s" and "largest_rowid s < two53"
  shows "\<exists>row s'. create_post now (Body (Str a) (Str b)) s = (Resp 201 (Row row), s') \<and>
     title row = trim a \<and> content row = trim b \<and>
     trim (trim a) = trim a \<and> trim (trim b) = trim b \<and>
     post_id row = largest_rowid s + 1 \<and>
     select_by_id (Finite (of_int (post_id row))) s' = Some row \<and>
     get_post (Finite (of_int (post_id row))) s' = Resp 200 (Row row)"
proof -
  let ?row = "inserted_row now (trim a) (trim b) s"
  let ?s' = "s\<lparr>rows := rows s @ [?row], seq := largest_rowid s + 1\<rparr>"
  from assms(3) largest_rowid_seq[of s] have "0 \<le> largest_rowid s" by simp
  with assms(4) have ex: "\<bar>largest_rowid s + 1\<bar> \<le> two53" by simp
  from assms have ch: "checked (Str a) (Str b) = Inr (Some (trim a, trim b))"
    by (simp add: checked_def falsy_def)
  have cp: "create_post now (Body (Str a) (Str b)) s = (Resp 201 (Row ?row), ?s')"
    using ch ex by (rule create_post_ok)
  have "select_by_id (Finite (of_int (to_double (largest_rowid s + 1)))) ?s' = Some ?row"
    using ex by (rule select_inserted)
  then have sel: "select_by_id (Finite (of_int (post_id ?row))) ?s' = Some ?row"
    by (simp only: to_double_exact[OF ex] inserted_row_fields)
  have gp: "get_post (Finite (of_int (post_id ?row))) ?s' = Resp 200 (Row ?row)"
    using sel by (rule get_post_found)
  from cp sel gp show ?thesis
    by (intro exI[of _ ?row] exI[of _ ?s']) (simp add: trim_idem)
qed

text \<open>
  On a store whose largest id is \<open>2^53\<close>, create answers 201 with the row of an older post,
  and get on the returned id yields that post, not the one created.
\<close>

theorem create_returns_older_post:
  "trim ''Hello'' = ''Hello'' \<and>
   fst (create_post 30 (Body (Str ''Hello'') (Str ''This is a test post'')) big_store) =
     Resp 201 (Row \<lparr>post_id = 9007199254740992, title = ''Old'', content = ''An older post'',
                     created_at = Some 10, updated_at = Some 20\<rparr>) \<and>
   get_post (Finite 9007199254740992)
      (snd (create_post 30 (Body (Str ''Hello'') (Str ''This is a test post'')) big_store)) =
     Resp 200 (Row \<lparr>post_id = 9007199254740992, title = ''Old'', content = ''An older post'',
                     created_at = Some 10, updated_at = Some 20\<rparr>)"
proof -
  have bl: "bit_length 9007199254740993 = 54" by (simp add: bit_length.simps)
  have td: "to_double 9007199254740993 = 9007199254740992"
    by (simp add: to_double_def two53_def bl Let_def)
  have td0: "to_double 9007199254740992 = 9007199254740992"
    by (simp add: to_double_def two53_def)
  have t: "trim ''Hello'' = ''Hello''" "trim ''This is a test post'' = ''This is a test post''"
    by (simp_all add: trim_def is_space_def)
  have l: "largest_rowid big_store = 9007199254740992"
    by (simp add: largest_rowid_def big_store_def)
  have rb: "rows big_store = [\<lparr>post_id = 9007199254740992, title = ''Old'',
      content = ''An older post'', created_at = Some 10, updated_at = Some 20\<rparr>]"
    by (simp add: big_store_def)
  have cp: "create_post 30 (Body (Str ''Hello'') (Str ''This is a test post'')) big_store =
     (Resp 201 (Row \<lparr>post_id = 9007199254740992, title = ''Old'', content = ''An older post'',
                     created_at = Some 10, updated_at = Some 20\<rparr>),
      big_store\<lparr>rows := rows big_store @
                    [inserted_row 30 ''Hello'' ''This is a test post'' big_store],
                seq := 9007199254740993\<rparr>)"
    by (simp add: create_post_def checked_def falsy_def t insert_post_def l max_rowid_def td
        select_by_id_def id_eq_def to_js_def td0 rb)
  have gp: "get_post (Finite 9007199254740992)
      (big_store\<lparr>rows := rows big_store @
                    [inserted_row 30 ''Hello'' ''This is a test post'' big_store],
                seq := 9007199254740993\<rparr>) =
     Resp 200 (Row \<lparr>post_id = 9007199254740992, title = ''Old'', content = ''An older post'',
                     created_at = Some 10, updated_at = Some 20\<rparr>)"
    by (simp add: get_post_def isFinite_def select_by_id_def id_eq_def to_js_def td0 rb)
  from t(1) cp gp show ?thesis by simp
qed

theorem create_get_round_trip_witness:
  "\<exists>row s'. create_post 42 (Body (Str ''  Hello '') (Str ''This is a test post'')) init_store
               = (Resp 201 (Row row), s') \<and>
     title row = ''Hello'' \<and> content row = ''This is a test post'' \<and>
     post_id row = 1 \<and>
     get_post (Finite 1) s' = Resp 200 (Row row)"
proof -
  have t: "trim ''  Hello '' = ''Hello''" "trim ''This is a test post'' = ''This is a test post''"
    by (simp_all add: trim_def is_space_def)
  have l: "largest_rowid init_store = 0"
    by (simp add: largest_rowid_def init_store_def)
  have "trim ''  Hello '' \<noteq> []" and "trim ''This is a test post'' \<noteq> []"
    and "0 \<le> seq init_store" and "largest_rowid init_store < two53"
    by (simp_all add: t l two53_def) (simp add: init_store_def)
  from create_get_round_trip[OF this, of 42]
  obtain row s' where
    "create_post 42 (Body (Str ''  Hello '') (Str ''This is a test post'')) init_store
       = (Resp 201 (Row row), s')"
    and "title row = ''Hello''" and "content row = ''This is a test post''"
    and "post_id row = 1"
    and "get_post (Finite (of_int (post_id row))) s' = Resp 200 (Row row)"
    unfolding t l by auto
  then show ?thesis by auto
qed

section \<open>Order of validation\<close>

text \<open>
  For a request that carries a body, the order is: the identifier, then the payload, then
  existence. An identifier that is not a finite number is answered with 400 \<open>Invalid id\<close>
  by get, update and delete, whatever the payload and the store hold. With a finite
  identifier, an update whose title is blank, or whose title is present and whose content
  is blank, is answered with 400 \<open>Title and content required\<close>, whether or not a row has
  that identifier. With a finite identifier that no row has, get and delete answer 404, and
  so does an update whose title and content are present.
\<close>

lemma validation_order_with_body:
  "(\<not> isFinite n \<longrightarrow>
      get_post n s = Resp 400 (ErrorJson ''Invalid id'') \<and>
      update_post now n (Body t c) s = (Resp 400 (ErrorJson ''Invalid id''), s) \<and>
      delete_post n s = (Resp 400 (ErrorJson ''Invalid id''), s))
   \<and> (isFinite n \<and> (blank t \<or> (present t \<and> blank c)) \<longrightarrow>
        update_post now n (Body t c) s = (Resp 400 (ErrorJson ''Title and content required''), s))
   \<and> (isFinite n \<and> (\<forall>p\<in>set (rows s). \<not> id_eq n p) \<longrightarrow>
        get_post n s = Resp 404 (ErrorJson ''Not found'') \<and>
        delete_post n s = (Resp 404 (ErrorJson ''Not found''), s) \<and>
        (present t \<and> present c \<longrightarrow>
           update_post now n (Body t c) s = (Resp 404 (ErrorJson ''Not found''), s)))"
proof (intro conjI impI)
  assume "\<not> isFinite n"
  then show "get_post n s = Resp 400 (ErrorJson ''Invalid id'')"
    and "update_post now n (Body t c) s = (Resp 400 (ErrorJson ''Invalid id''), s)"
    and "delete_post n s = (Resp 400 (ErrorJson ''Invalid id''), s)"
    by (simp_all add: get_post_invalid_id update_post_invalid_id delete_post_invalid_id)
next
  assume a: "isFinite n \<and> (blank t \<or> present t \<and> blank c)"
  then have "checked t c = Inr None" by (simp add: checked_blank)
  with a show "update_post now n (Body t c) s =
      (Resp 400 (ErrorJson ''Title and content required''), s)"
    by (simp add: update_post_blank)
next
  assume a: "isFinite n \<and> (\<forall>p\<in>set (rows s). \<not> id_eq n p)"
  then show "get_post n s = Resp 404 (ErrorJson ''Not found'')"
    by (simp add: get_post_missing)
  from a show "delete_post n s = (Resp 404 (ErrorJson ''Not found''), s)"
    by (simp add: delete_post_missing)
  assume p: "present t \<and> present c"
  then obtain x y where "checked t c = Inr (Some (trim x, trim y))"
    using checked_present by blast
  with a show "update_post now n (Body t c) s = (Resp 404 (ErrorJson ''Not found''), s)"
    by (simp add: update_post_missing)
qed

text \<open>
  Claim C4: the identifier is validated first, then the payload, then existence. The
  update handler breaks this order on a request that carries no body: it destructures
  \<open>req.body\<close> before it tests the identifier, the destructuring throws, and the request is
  answered with status 500, whether the identifier is a finite number or not and whether
  a row has it or not. Get and delete on the same identifier answer 400 \<open>Invalid id\<close>, and
  so does an update with the empty object as its body.
\<close>

theorem update_without_body:
  "update_post 0 NaN NoBody init_store = (Resp 500 Unhandled, init_store) \<and>
   update_post 0 (Finite 7) NoBody init_store = (Resp 500 Unhandled, init_store) \<and>
   update_post 0 (Finite 1) NoBody two_posts = (Resp 500 Unhandled, two_posts) \<and>
   update_post 0 NaN (Body Undefined Undefined) init_store =
     (Resp 400 (ErrorJson ''Invalid id''), init_store) \<and>
   get_post NaN init_store = Resp 400 (ErrorJson ''Invalid id'') \<and>
   delete_post NaN init_store = (Resp 400 (ErrorJson ''Invalid id''), init_store)"
  by (simp add: update_post_def get_post_def delete_post_def isFinite_def)

section \<open>Effect of an update\<close>

text \<open>
  Claim C5. When update answers 200, the request carried a body whose title and content
  were strings, the store keeps its length, its order, its sequence value and its schema,
  every row keeps its id and its \<open>created_at\<close>, the rows with the given id get the trimmed
  title and content and \<open>updated_at = now\<close>, and every other row is untouched; the response
  is the row that the \<open>SELECT\<close> by id reads back from the updated store. An update with a
  finite id that no row has and with title and content present answers 404, and whenever
  update answers 404 the store is unchanged.
\<close>

theorem update_frame:
  "(update_post now n b s = (Resp 200 bd, s') \<longrightarrow>
      (\<exists>a d r0. b = Body (Str a) (Str d) \<and> select_by_id n s = Some r0 \<and>
         bd = Row (r0\<lparr>title := trim a, content := trim d, updated_at := Some now\<rparr>) \<and>
         select_by_id n s' =
           Some (r0\<lparr>title := trim a, content := trim d, updated_at := Some now\<rparr>) \<and>
         seq s' = seq s \<and> defaults s' = defaults s \<and> length (rows s') = length (rows s) \<and>
         (\<forall>i<length (rows s).
            post_id (rows s' ! i) = post_id (rows s ! i) \<and>
            created_at (rows s' ! i) = created_at (rows s ! i) \<and>
            (if id_eq n (rows s ! i)
             then title (rows s' ! i) = trim a \<and> content (rows s' ! i) = trim d \<and>
                  updated_at (rows s' ! i) = Some now
             else rows s' ! i = rows s ! i))))
   \<and> (isFinite n \<and> present t \<and> present c \<and> (\<forall>p\<in>set (rows s). \<not> id_eq n p) \<longrightarrow>
        update_post now n (Body t c) s = (Resp 404 (ErrorJson ''Not found''), s))
   \<and> (status (fst (update_post now n b s)) = 404 \<longrightarrow> snd (update_post now n b s) = s)"
proof (intro conjI impI)
  assume up: "update_post now n b s = (Resp 200 bd, s')"
  let ?f = "\<lambda>a d p. if id_eq n p
                       then p\<lparr>title := trim a, content := trim d, updated_at := Some now\<rparr> else p"
  from update_post_cases[OF up] obtain a d r0 where
    b: "b = Body (Str a) (Str d)"
    and bd: "bd = Row (r0\<lparr>title := trim a, content := trim d, updated_at := Some now\<rparr>)"
    and r0: "select_by_id n s = Some r0"
    and s': "s' = s\<lparr>rows := map (?f a d) (rows s)\<rparr>"
    by auto
  have sel: "select_by_id n s' =
      Some (r0\<lparr>title := trim a, content := trim d, updated_at := Some now\<rparr>)"
    unfolding s' using r0 by (rule select_updated)
  have frame: "\<forall>i<length (rows s).
            post_id (rows s' ! i) = post_id (rows s ! i) \<and>
            created_at (rows s' ! i) = created_at (rows s ! i) \<and>
            (if id_eq n (rows s ! i)
             then title (rows s' ! i) = trim a \<and> content (rows s' ! i) = trim d \<and>
                  updated_at (rows s' ! i) = Some now
             else rows s' ! i = rows s ! i)"
    by (simp add: s')
  have "seq s' = seq s" "defaults s' = defaults s" "length (rows s') = length (rows s)"
    by (simp_all add: s')
  with b r0 bd sel frame
  show "\<exists>a d r0. b = Body (Str a) (Str d) \<and> select_by_id n s = Some r0 \<and>
         bd = Row (r0\<lparr>title := trim a, content := trim d, updated_at := Some now\<rparr>) \<and>
         select_by_id n s' =
           Some (r0\<lparr>title := trim a, content := trim d, updated_at := Some now\<rparr>) \<and>
         seq s' = seq s \<and> defaults s' = defaults s \<and> length (rows s') = length (rows s) \<and>
         (\<forall>i<length (rows s).
            post_id (rows s' ! i) = post_id (rows s ! i) \<and>
            created_at (rows s' ! i) = created_at (rows s ! i) \<and>
            (if id_eq n (rows s ! i)
             then title (rows s' ! i) = trim a \<and> content (rows s' ! i) = trim d \<and>
                  updated_at (rows s' ! i) = Some now
             else rows s' ! i = rows s ! i))"
    by blast
next
  assume a: "isFinite n \<and> present t \<and> present c \<and> (\<forall>p\<in>set (rows s). \<not> id_eq n p)"
  then obtain x y where "checked t c = Inr (Some (trim x, trim y))"
    using checked_present by blast
  with a show "update_post now n (Body t c) s = (Resp 404 (ErrorJson ''Not found''), s)"
    by (simp add: update_post_missing)
next
  assume "status (fst (update_post now n b s)) = 404"
  then show "snd (update_post now n b s) = s" by (rule update_post_404D)
qed

theorem update_frame_witness:
  "update_post 30 (Finite 1) (Body (Str '' New '') (Str ''Changed content'')) two_posts =
     (Resp 200 (Row \<lparr>post_id = 1, title = ''New'', content = ''Changed content'',
                      created_at = Some 10, updated_at = Some 30\<rparr>),
      \<lparr>rows = [\<lparr>post_id = 1, title = ''New'', content = ''Changed content'',
                 created_at = Some 10, updated_at = Some 30\<rparr>,
               \<lparr>post_id = 2, title = ''Second'', content = ''Another test post'',
                 created_at = Some 20, updated_at = Some 20\<rparr>],
       seq = 2, defaults = True\<rparr>) \<and>
   select_by_id (Finite 1)
      \<lparr>rows = [\<lparr>post_id = 1, title = ''New'', content = ''Changed content'',
                 created_at = Some 10, updated_at = Some 30\<rparr>,
               \<lparr>post_id = 2, title = ''Second'', content = ''Another test post'',
                 created_at = Some 20, updated_at = Some 20\<rparr>],
       seq = 2, defaults = True\<rparr> =
     Some \<lparr>post_id = 1, title = ''New'', content = ''Changed content'',
            created_at = Some 10, updated_at = Some 30\<rparr> \<and>
   update_post 30 (Finite 3) (Body (Str '' New '') (Str ''Changed content'')) two_posts =
     (Resp 404 (ErrorJson ''Not found''), two_posts)"
proof -
  let ?b = "Row \<lparr>post_id = 1, title = ''New'', content = ''Changed content'',
                      created_at = Some 10, updated_at = Some 30\<rparr>"
  let ?s' = "\<lparr>rows = [\<lparr>post_id = 1, title = ''New'', content = ''Changed content'',
                 created_at = Some 10, updated_at = Some 30\<rparr>,
               \<lparr>post_id = 2, title = ''Second'', content = ''Another test post'',
                 created_at = Some 20, updated_at = Some 20\<rparr>],
       seq = 2, defaults = True\<rparr>"
  let ?req = "Body (Str '' New '') (Str ''Changed content'')"
  have t: "trim '' New '' = ''New''" "trim ''Changed content'' = ''Changed content''"
    by (simp_all add: trim_def is_space_def)
  have first: "update_post 30 (Finite 1) ?req two_posts = (Resp 200 ?b, ?s')"
    by (simp add: update_post_def two_posts_def isFinite_def checked_def falsy_def t
        update_rows_def id_eq_def select_by_id_def to_js_def to_double_def two53_def)
  have sel: "select_by_id (Finite 1) two_posts =
       Some \<lparr>post_id = 1, title = ''Hello'', content = ''This is a test post'',
                created_at = Some 10, updated_at = Some 10\<rparr>"
    by (simp add: select_by_id_def two_posts_def id_eq_def to_js_def to_double_def two53_def)
  have nf: "isFinite (Finite 3) \<and> present (Str '' New '') \<and> present (Str ''Changed content'') \<and>
        (\<forall>p\<in>set (rows two_posts). \<not> id_eq (Finite 3) p)"
    by (simp add: isFinite_def present_def t two_posts_def id_eq_def)
  from update_frame[where now = 30 and n = "Finite 1" and b = ?req and s = two_posts
      and bd = ?b and s' = ?s' and t = Undefined and c = Undefined] first
  obtain a d r0 where
    w: "?req = Body (Str a) (Str d)"
       "select_by_id (Finite 1) two_posts = Some r0"
       "select_by_id (Finite 1) ?s' =
          Some (r0\<lparr>title := trim a, content := trim d, updated_at := Some 30\<rparr>)"
    by blast
  from w(1) have ad: "a = '' New ''" "d = ''Changed content''" by simp_all
  from w(2) sel have r0: "r0 = \<lparr>post_id = 1, title = ''Hello'', content = ''This is a test post'',
                created_at = Some 10, updated_at = Some 10\<rparr>" by simp
  from w(3) have second: "select_by_id (Finite 1) ?s' =
     Some \<lparr>post_id = 1, title = ''New'', content = ''Changed content'',
            created_at = Some 10, updated_at = Some 30\<rparr>"
    by (simp add: ad r0 t)
  from update_frame[where now = 30 and n = "Finite 3" and t = "Str '' New ''"
      and c = "Str ''Changed content''" and s = two_posts and b = NoBody and bd = ?b and s' = ?s']
    nf
  have third: "update_post 30 (Finite 3) ?req two_posts =
     (Resp 404 (ErrorJson ''Not found''), two_posts)" by blast
  from first second third show ?thesis by (simp only: simp_thms)
qed

section \<open>Order of the list\<close>

lemma select_all_desc_exact:
  assumes "wf s" and "seq s \<le> two53"
  shows "select_all_desc s = rev (sort_key post_id (rows s))"
proof -
  have "\<forall>p\<in>set (rev (sort_key post_id (rows s))). \<bar>post_id p\<bar> \<le> two53"
    using wf_exact[OF assms] by simp
  then show ?thesis by (simp only: select_all_desc_def map_to_js_exact)
qed

lemma sorted_desc:
  assumes "wf s"
  shows "sorted_wrt (\<lambda>p q. post_id q < post_id p) (rev (sort_key post_id (rows s)))"
proof -
  let ?ys = "sort_key post_id (rows s)"
  from assms have d: "distinct (map post_id (rows s))" by (simp add: wf_def)
  then have "distinct (rows s)" and "inj_on post_id (set (rows s))"
    by (simp_all add: distinct_map)
  then have "distinct (map post_id ?ys)" by (simp add: distinct_map)
  moreover have "sorted (map post_id ?ys)" by (rule sorted_sort_key)
  ultimately have "sorted_wrt (<) (map post_id ?ys)" by (simp add: strict_sorted_iff)
  then have "sorted_wrt (\<lambda>p q. post_id p < post_id q) ?ys" by (simp add: sorted_wrt_map)
  then show ?thesis by (simp add: sorted_wrt_rev)
qed

text \<open>Stores whose rows are in ascending id order, as a run of creates leaves them.\<close>

lemma create_appends:
  assumes "wf s" and "sorted (map post_id (rows s))"
    and "create_post now b s = (resp, s')" and "status resp = 201" and "seq s' \<le> two53"
  shows "wf s' \<and> sorted (map post_id (rows s')) \<and> rows s' = rows s @ visible resp \<and>
         length (visible resp) = 1"
proof -
  from assms(3) have h: "handle now (Create b) s = (resp, s')" by simp
  from wf_handle[OF assms(1) h] have w: "wf s'" by simp
  from assms(1) have z: "0 \<le> seq s" by (simp add: wf_def)
  from create_post_cases[OF assms(3)] assms(4) obtain a d where
    s': "s' = s\<lparr>rows := rows s @ [inserted_row now (trim a) (trim d) s],
               seq := largest_rowid s + 1\<rparr>"
    and ex: "\<bar>largest_rowid s + 1\<bar> \<le> two53 \<longrightarrow>
           resp = Resp 201 (Row (inserted_row now (trim a) (trim d) s))"
    by auto
  from assms(5) s' have "largest_rowid s + 1 \<le> two53" by simp
  moreover from z largest_rowid_seq[of s] have "0 \<le> largest_rowid s + 1" by simp
  ultimately have "\<bar>largest_rowid s + 1\<bar> \<le> two53" by simp
  with ex have r: "resp = Resp 201 (Row (inserted_row now (trim a) (trim d) s))" by simp
  have "\<forall>x\<in>set (map post_id (rows s)). x \<le> largest_rowid s + 1"
    using largest_rowid_row[of _ s] by fastforce
  with assms(2) have "sorted (map post_id (rows s'))"
    by (simp add: s' sorted_append)
  with w r s' show ?thesis by simp
qed

lemma run_creates:
  assumes "wf s" and "sorted (map post_id (rows s))"
    and "list_all is_create (map snd reqs)" and "run reqs s = (resps, s')"
    and "list_all (\<lambda>r. status r = 201) resps" and "seq s' \<le> two53"
  shows "wf s' \<and> sorted (map post_id (rows s')) \<and> rows s' = rows s @ created resps \<and>
         length (created resps) = length reqs"
  using assms
proof (induction reqs arbitrary: s resps)
  case Nil
  then show ?case by (auto simp: created_def)
next
  case (Cons a reqs)
  obtain now r where a: "a = (now, r)" by (cases a)
  from Cons.prems(3) a obtain b where r: "r = Create b" by (cases r) auto
  from Cons.prems(4)[unfolded a] obtain resp s1 rest where
    h: "handle now r s = (resp, s1)" and rr: "run reqs s1 = (rest, s')" and rs: "resps = resp # rest"
    by (rule run_Cons_E)
  from h r have cp: "create_post now b s = (resp, s1)" by simp
  from Cons.prems(5) rs have st: "status resp = 201" and rest: "list_all (\<lambda>r. status r = 201) rest"
    by simp_all
  from wf_handle[OF Cons.prems(1) h] have w1: "wf s1" by simp
  from wf_run[OF w1 rr] Cons.prems(6) have b1: "seq s1 \<le> two53" by simp
  from create_appends[OF Cons.prems(1,2) cp st b1] have
    s1: "wf s1" "sorted (map post_id (rows s1))" "rows s1 = rows s @ visible resp"
        "length (visible resp) = 1" by blast+
  from Cons.prems(3) have "list_all is_create (map snd reqs)" by simp
  from Cons.IH[OF s1(1,2) this rr rest Cons.prems(6)] have
    ih: "wf s'" "sorted (map post_id (rows s'))" "rows s' = rows s1 @ created rest"
        "length (created rest) = length reqs" by blast+
  have "created resps = visible resp @ created rest"
    using st by (simp add: rs created_def)
  with ih s1 show ?case by simp
qed

text \<open>
  Claim C2, as amended. On a store reached from the empty database whose ids do not exceed
  \<open>2^53\<close>, list answers 200 with every row of the table and nothing else, in strictly
  descending order of id; when the requests were creates that all succeeded, the list is
  exactly the created posts, newest first: the reverse of the order of creation. On the
  empty store the list is the empty array.
\<close>

theorem list_ordering:
  "(run reqs init_store = (resps, s) \<and> seq s \<le> two53 \<longrightarrow>
      (\<exists>xs. get_posts s = Resp 200 (Rows xs) \<and>
            sorted_wrt (\<lambda>p q. post_id q < post_id p) xs \<and>
            set xs = set (rows s) \<and> length xs = length (rows s)) \<and>
      (list_all is_create (map snd reqs) \<and> list_all (\<lambda>r. status r = 201) resps \<longrightarrow>
         length (created resps) = length reqs \<and>
         get_posts s = Resp 200 (Rows (rev (created resps)))))
   \<and> get_posts init_store = Resp 200 (Rows [])"
proof (intro conjI impI)
  assume a: "run reqs init_store = (resps, s) \<and> seq s \<le> two53"
  then have w: "wf s" using reachable_wf by blast
  from a have b: "seq s \<le> two53" by simp
  have e: "select_all_desc s = rev (sort_key post_id (rows s))"
    using w b by (rule select_all_desc_exact)
  have "sorted_wrt (\<lambda>p q. post_id q < post_id p) (select_all_desc s)"
    unfolding e using w by (rule sorted_desc)
  moreover have "set (select_all_desc s) = set (rows s)"
    and "length (select_all_desc s) = length (rows s)"
    by (simp_all add: e)
  ultimately show "\<exists>xs. get_posts s = Resp 200 (Rows xs) \<and>
            sorted_wrt (\<lambda>p q. post_id q < post_id p) xs \<and>
            set xs = set (rows s) \<and> length xs = length (rows s)"
    by (simp add: get_posts_def)
  assume c: "list_all is_create (map snd reqs) \<and> list_all (\<lambda>r. status r = 201) resps"
  have "sorted (map post_id (rows init_store))" by (simp add: init_store_def)
  from run_creates[OF wf_init this, of reqs resps s] a c
  have r: "sorted (map post_id (rows s))" "rows s = rows init_store @ created resps"
       "length (created resps) = length reqs" by blast+
  from r(3) show "length (created resps) = length reqs" .
  from r(1) have "sort_key post_id (rows s) = rows s" by (rule sort_key_id_if_sorted)
  with r(2) show "get_posts s = Resp 200 (Rows (rev (created resps)))"
    by (simp add: get_posts_def e init_store_def)
next
  show "get_posts init_store = Resp 200 (Rows [])"
    by (simp add: get_posts_def select_all_desc_def init_store_def)
qed

text \<open>
  On a store whose largest id is \<open>2^53\<close>, after one more successful create the list shows
  two posts with the id \<open>2^53\<close>: the order is not strict, and the id of the new row, which
  is \<open>2^53 + 1\<close>, is not shown.
\<close>

theorem list_repeats_rounded_id:
  "status (fst (create_post 30 (Body (Str ''Hello'') (Str ''This is a test post'')) big_store))
     = 201 \<and>
   map post_id (rows (snd (create_post 30 (Body (Str ''Hello'') (Str ''This is a test post''))
                             big_store)))
     = [9007199254740992, 9007199254740993] \<and>
   get_posts (snd (create_post 30 (Body (Str ''Hello'') (Str ''This is a test post'')) big_store))
     = Resp 200 (Rows
         [\<lparr>post_id = 9007199254740992, title = ''Hello'', content = ''This is a test post'',
            created_at = Some 30, updated_at = Some 30\<rparr>,
          \<lparr>post_id = 9007199254740992, title = ''Old'', content = ''An older post'',
            created_at = Some 10, updated_at = Some 20\<rparr>])"
proof -
  have bl: "bit_length 9007199254740993 = 54" by (simp add: bit_length.simps)
  have td: "to_double 9007199254740993 = 9007199254740992"
    by (simp add: to_double_def two53_def bl Let_def)
  have td0: "to_double 9007199254740992 = 9007199254740992"
    by (simp add: to_double_def two53_def)
  have t: "trim ''Hello'' = ''Hello''" "trim ''This is a test post'' = ''This is a test post''"
    by (simp_all add: trim_def is_space_def)
  have l: "largest_rowid big_store = 9007199254740992"
    by (simp add: largest_rowid_def big_store_def)
  have rb: "rows big_store = [\<lparr>post_id = 9007199254740992, title = ''Old'',
      content = ''An older post'', created_at = Some 10, updated_at = Some 20\<rparr>]"
    and db: "defaults big_store"
    by (simp_all add: big_store_def)
  have cp: "create_post 30 (Body (Str ''Hello'') (Str ''This is a test post'')) big_store =
     (Resp 201 (Row \<lparr>post_id = 9007199254740992, title = ''Old'', content = ''An older post'',
                     created_at = Some 10, updated_at = Some 20\<rparr>),
      big_store\<lparr>rows := rows big_store @
                    [inserted_row 30 ''Hello'' ''This is a test post'' big_store],
                seq := 9007199254740993\<rparr>)"
    by (simp add: create_post_def checked_def falsy_def t insert_post_def l max_rowid_def td
        select_by_id_def id_eq_def to_js_def td0 rb)
  show ?thesis
    by (simp add: cp get_posts_def select_all_desc_def rb db l inserted_row_def to_js_def td td0)
qed

theorem list_ordering_witness:
  "run [(10, Create (Body (Str ''Hello'') (Str ''This is a test post''))),
        (20, Create (Body (Str ''Second'') (Str ''Another test post'')))] init_store =
     ([Resp 201 (Row \<lparr>post_id = 1, title = ''Hello'', content = ''This is a test post'',
                       created_at = Some 10, updated_at = Some 10\<rparr>),
       Resp 201 (Row \<lparr>post_id = 2, title = ''Second'', content = ''Another test post'',
                       created_at = Some 20, updated_at = Some 20\<rparr>)], two_posts) \<and>
   get_posts two_posts =
     Resp 200 (Rows [\<lparr>post_id = 2, title = ''Second'', content = ''Another test post'',
                      created_at = Some 20, updated_at = Some 20\<rparr>,
                    \<lparr>post_id = 1, title = ''Hello'', content = ''This is a test post'',
                      created_at = Some 10, updated_at = Some 10\<rparr>]) \<and>
   (\<exists>xs. get_posts two_posts = Resp 200 (Rows xs) \<and>
         sorted_wrt (\<lambda>p q. post_id q < post_id p) xs \<and> length xs = 2)"
proof -
  let ?reqs = "[(10::nat, Create (Body (Str ''Hello'') (Str ''This is a test post''))),
        (20, Create (Body (Str ''Second'') (Str ''Another test post'')))]"
  let ?resps = "[Resp 201 (Row \<lparr>post_id = 1, title = ''Hello'', content = ''This is a test post'',
                       created_at = Some 10, updated_at = Some 10\<rparr>),
       Resp 201 (Row \<lparr>post_id = 2, title = ''Second'', content = ''Another test post'',
                       created_at = Some 20, updated_at = Some 20\<rparr>)]"
  have t: "trim ''Hello'' = ''Hello''" "trim ''This is a test post'' = ''This is a test post''"
    "trim ''Second'' = ''Second''" "trim ''Another test post'' = ''Another test post''"
    by (simp_all add: trim_def is_space_def)
  have r: "run ?reqs init_store = (?resps, two_posts)"
    by (simp add: create_post_def checked_def falsy_def t insert_post_def inserted_row_def
        largest_rowid_def init_store_def max_rowid_def select_by_id_def id_eq_def two_posts_def
        to_js_def to_double_def two53_def)
  have b: "seq two_posts \<le> two53" by (simp add: two_posts_def two53_def)
  have c: "list_all is_create (map snd ?reqs)" "list_all (\<lambda>r. status r = 201) ?resps"
    by simp_all
  have cr: "created ?resps =
     [\<lparr>post_id = 1, title = ''Hello'', content = ''This is a test post'',
         created_at = Some 10, updated_at = Some 10\<rparr>,
      \<lparr>post_id = 2, title = ''Second'', content = ''Another test post'',
         created_at = Some 20, updated_at = Some 20\<rparr>]"
    by (simp add: created_def)
  from list_ordering[of ?reqs ?resps two_posts] r b c
  have "\<exists>xs. get_posts two_posts = Resp 200 (Rows xs) \<and>
            sorted_wrt (\<lambda>p q. post_id q < post_id p) xs \<and>
            set xs = set (rows two_posts) \<and> length xs = length (rows two_posts)"
    and "get_posts two_posts = Resp 200 (Rows (rev (created ?resps)))"
    by blast+
  then show ?thesis using r by (simp add: cr two_posts_def)
qed

section \<open>Finality of a delete\<close>

lemma gone_handle:
  assumes "wf s" and "x \<le> seq s" and "\<forall>p\<in>set (rows s). post_id p \<noteq> x"
    and "handle now r s = (resp, s')"
  shows "x \<le> seq s' \<and> (\<forall>p\<in>set (rows s'). post_id p \<noteq> x) \<and>
         (seq s' \<le> two53 \<and> status resp = 201 \<longrightarrow> (\<forall>p\<in>set (visible resp). post_id p \<noteq> x))"
proof -
  have l: "seq s \<le> largest_rowid s" by (rule largest_rowid_seq)
  from wf_handle[OF assms(1,4)] have w': "wf s'" by simp
  from handle_cases[OF assms(4)] show ?thesis
  proof (elim disjE exE conjE)
    assume "s' = s" "status resp \<noteq> 201"
    with assms(2,3) show ?thesis by simp
  next
    fix a d
    assume a: "status resp = 201"
      "s' = s\<lparr>rows := rows s @ [inserted_row now (trim a) (trim d) s],
               seq := largest_rowid s + 1\<rparr>"
      "set (visible resp) \<subseteq> to_js ` set (rows s')"
    from assms(2) l have x: "x \<le> largest_rowid s" by simp
    with assms(3) a(2) have rows': "\<forall>p\<in>set (rows s'). post_id p \<noteq> x" by auto
    have "\<forall>p\<in>set (visible resp). post_id p \<noteq> x" if "seq s' \<le> two53"
    proof
      fix p assume "p \<in> set (visible resp)"
      with a(3) obtain q where q: "q \<in> set (rows s')" "p = to_js q" by auto
      from wf_to_js[OF w' that q(1)] q(2) have "p = q" by simp
      with q(1) rows' show "post_id p \<noteq> x" by simp
    qed
    with x rows' a(2) show ?thesis by simp
  next
    fix n a d r0
    assume "resp = Resp 200 (Row (r0\<lparr>title := trim a, content := trim d, updated_at := Some now\<rparr>))"
      "s' = s\<lparr>rows := map (\<lambda>p. if id_eq n p
                                 then p\<lparr>title := trim a, content := trim d, updated_at := Some now\<rparr>
                                 else p)
                         (rows s)\<rparr>"
    with assms(2,3) show ?thesis by auto
  next
    fix n
    assume "resp = Resp 200 Success" "s' = s\<lparr>rows := filter (\<lambda>p. \<not> id_eq n p) (rows s)\<rparr>"
    with assms(2,3) show ?thesis by auto
  qed
qed

lemma gone_run:
  assumes "wf s" and "x \<le> seq s" and "\<forall>p\<in>set (rows s). post_id p \<noteq> x"
    and "run reqs s = (resps, s')"
  shows "wf s' \<and> (\<forall>p\<in>set (rows s'). post_id p \<noteq> x) \<and>
         (seq s' \<le> two53 \<longrightarrow> (\<forall>p\<in>set (created resps). post_id p \<noteq> x))"
  using assms
proof (induction reqs arbitrary: s resps)
  case Nil
  then show ?case by (auto simp: created_def)
next
  case (Cons a reqs)
  obtain now r where a: "a = (now, r)" by (cases a)
  from Cons.prems(4)[unfolded a] obtain resp s1 rest where
    h: "handle now r s = (resp, s1)" and rr: "run reqs s1 = (rest, s')" and rs: "resps = resp # rest"
    by (rule run_Cons_E)
  from wf_handle[OF Cons.prems(1) h] have w1: "wf s1" by simp
  from wf_run[OF w1 rr] have mono: "seq s1 \<le> seq s'" by simp
  from gone_handle[OF Cons.prems(1,2,3) h] have
    g: "x \<le> seq s1" "\<forall>p\<in>set (rows s1). post_id p \<noteq> x"
       "seq s1 \<le> two53 \<and> status resp = 201 \<longrightarrow> (\<forall>p\<in>set (visible resp). post_id p \<noteq> x)"
    by blast+
  from Cons.IH[OF w1 g(1,2) rr] have
    ih: "wf s'" "\<forall>p\<in>set (rows s'). post_id p \<noteq> x"
        "seq s' \<le> two53 \<longrightarrow> (\<forall>p\<in>set (created rest). post_id p \<noteq> x)" by blast+
  have "set (created resps) = set (if status resp = 201 then visible resp else []) \<union> set (created rest)"
    by (simp add: rs created_def)
  with g(3) ih mono show ?case by auto
qed

text \<open>
  Claim C6, as amended. On a store reached from the empty database, after delete has
  answered 200 for an id, get on that id answers 404 and no row of the store has the id,
  now and after whatever requests follow; and as long as the ids of the store do not
  exceed \<open>2^53\<close>, the list holds no post with that id and no successful create returns a
  post with it.
\<close>

theorem delete_finality:
  assumes "run pre init_store = (resps0, s)" and "delete_post n s = (Resp 200 Success, s1)"
  shows "get_post n s1 = Resp 404 (ErrorJson ''Not found'') \<and>
         (seq s1 \<le> two53 \<longrightarrow>
            (\<exists>xs. get_posts s1 = Resp 200 (Rows xs) \<and> (\<forall>p\<in>set xs. \<not> id_eq n p))) \<and>
         (\<forall>reqs resps s2. run reqs s1 = (resps, s2) \<longrightarrow>
            (\<forall>p\<in>set (rows s2). \<not> id_eq n p) \<and>
            get_post n s2 = Resp 404 (ErrorJson ''Not found'') \<and>
            (seq s2 \<le> two53 \<longrightarrow>
               (\<forall>p\<in>set (created resps). \<not> id_eq n p) \<and>
               (\<exists>xs. get_posts s2 = Resp 200 (Rows xs) \<and> (\<forall>p\<in>set xs. \<not> id_eq n p))))"
proof -
  from assms(1) have w: "wf s" using reachable_wf by blast
  from delete_post_cases[OF assms(2)] obtain q where
    q: "q \<in> set (rows s)" "id_eq n q" and s1: "s1 = s\<lparr>rows := filter (\<lambda>p. \<not> id_eq n p) (rows s)\<rparr>"
    by auto
  from q(2) have fin: "isFinite n" by (rule id_eq_finite)
  have same: "id_eq n p \<longleftrightarrow> post_id p = post_id q" for p
    using q(2) by (cases n) (auto simp: id_eq_def)
  have h: "handle 0 (Delete n) s = (Resp 200 Success, s1)" using assms(2) by simp
  from wf_handle[OF w h] have w1: "wf s1" by simp
  from w have b: "\<forall>p\<in>set (rows s). post_id p \<le> seq s" by (simp add: wf_def list_all_iff)
  have x: "post_id q \<le> seq s1" using b q(1) by (simp add: s1)
  have inv: "\<forall>p\<in>set (rows s1). post_id p \<noteq> post_id q"
    by (simp add: s1 same)
  have listed: "\<exists>xs. get_posts s2 = Resp 200 (Rows xs) \<and> (\<forall>p\<in>set xs. \<not> id_eq n p)"
    if "wf s2" "seq s2 \<le> two53" "\<forall>p\<in>set (rows s2). post_id p \<noteq> post_id q" for s2
    using that by (simp add: get_posts_def select_all_desc_exact same)
  have g1: "get_post n s1 = Resp 404 (ErrorJson ''Not found'')"
    using fin inv by (simp add: get_post_missing same)
  have g2: "seq s1 \<le> two53 \<longrightarrow>
            (\<exists>xs. get_posts s1 = Resp 200 (Rows xs) \<and> (\<forall>p\<in>set xs. \<not> id_eq n p))"
    using listed[OF w1 _ inv] by blast
  have g3: "(\<forall>p\<in>set (rows s2). \<not> id_eq n p) \<and>
            get_post n s2 = Resp 404 (ErrorJson ''Not found'') \<and>
            (seq s2 \<le> two53 \<longrightarrow>
               (\<forall>p\<in>set (created resps). \<not> id_eq n p) \<and>
               (\<exists>xs. get_posts s2 = Resp 200 (Rows xs) \<and> (\<forall>p\<in>set xs. \<not> id_eq n p)))"
    if "run reqs s1 = (resps, s2)" for reqs resps s2
  proof -
    from gone_run[OF w1 x inv that] have
      r: "wf s2" "\<forall>p\<in>set (rows s2). post_id p \<noteq> post_id q"
         "seq s2 \<le> two53 \<longrightarrow> (\<forall>p\<in>set (created resps). post_id p \<noteq> post_id q)" by blast+
    from r(2) have "get_post n s2 = Resp 404 (ErrorJson ''Not found'')"
      using fin by (simp add: get_post_missing same)
    with r listed[OF r(1) _ r(2)] show ?thesis by (simp add: same)
  qed
  from g1 g2 g3 show ?thesis by blast
qed

text \<open>
  On a store with the ids \<open>2^53\<close> and \<open>2^53 + 1\<close>, after the delete of \<open>2^53\<close> has answered
  200 the list still shows a post with the id \<open>2^53\<close>: the remaining row, whose id does not
  fit a JavaScript number.
\<close>

theorem deleted_id_listed_again:
  "delete_post (Finite 9007199254740992) twin_store =
     (Resp 200 Success,
      twin_store\<lparr>rows := [\<lparr>post_id = 9007199254740993, title = ''New'',
                            content = ''A newer post'', created_at = Some 30,
                            updated_at = Some 30\<rparr>]\<rparr>) \<and>
   get_posts (twin_store\<lparr>rows := [\<lparr>post_id = 9007199254740993, title = ''New'',
                            content = ''A newer post'', created_at = Some 30,
                            updated_at = Some 30\<rparr>]\<rparr>) =
     Resp 200 (Rows [\<lparr>post_id = 9007199254740992, title = ''New'', content = ''A newer post'',
                      created_at = Some 30, updated_at = Some 30\<rparr>]) \<and>
   id_eq (Finite 9007199254740992)
     \<lparr>post_id = 9007199254740992, title = ''New'', content = ''A newer post'',
      created_at = Some 30, updated_at = Some 30\<rparr>"
proof -
  have bl: "bit_length 9007199254740993 = 54" by (simp add: bit_length.simps)
  have td: "to_double 9007199254740993 = 9007199254740992"
    by (simp add: to_double_def two53_def bl Let_def)
  have rb: "rows twin_store =
     [\<lparr>post_id = 9007199254740992, title = ''Old'', content = ''An older post'',
        created_at = Some 10, updated_at = Some 20\<rparr>,
      \<lparr>post_id = 9007199254740993, title = ''New'', content = ''A newer post'',
        created_at = Some 30, updated_at = Some 30\<rparr>]"
    by (simp add: twin_store_def)
  show ?thesis
    by (simp add: delete_post_def delete_rows_def isFinite_def id_eq_def rb get_posts_def
        select_all_desc_def to_js_def td)
qed

theorem delete_finality_witness:
  "run [(10, Create (Body (Str ''Hello'') (Str ''This is a test post''))),
        (20, Create (Body (Str ''Second'') (Str ''Another test post'')))] init_store =
     ([Resp 201 (Row \<lparr>post_id = 1, title = ''Hello'', content = ''This is a test post'',
                       created_at = Some 10, updated_at = Some 10\<rparr>),
       Resp 201 (Row \<lparr>post_id = 2, title = ''Second'', content = ''Another test post'',
                       created_at = Some 20, updated_at = Some 20\<rparr>)], two_posts) \<and>
   delete_post (Finite 2) two_posts =
     (Resp 200 Success,
      \<lparr>rows = [\<lparr>post_id = 1, title = ''Hello'', content = ''This is a test post'',
                 created_at = Some 10, updated_at = Some 10\<rparr>], seq = 2, defaults = True\<rparr>) \<and>
   get_post (Finite 2)
      \<lparr>rows = [\<lparr>post_id = 1, title = ''Hello'', content = ''This is a test post'',
                 created_at = Some 10, updated_at = Some 10\<rparr>], seq = 2, defaults = True\<rparr>
     = Resp 404 (ErrorJson ''Not found'') \<and>
   fst (run [(30, Create (Body (Str ''Third'') (Str ''Yet another post'')))]
      \<lparr>rows = [\<lparr>post_id = 1, title = ''Hello'', content = ''This is a test post'',
                 created_at = Some 10, updated_at = Some 10\<rparr>], seq = 2, defaults = True\<rparr>) =
     [Resp 201 (Row \<lparr>post_id = 3, title = ''Third'', content = ''Yet another post'',
                 created_at = Some 30, updated_at = Some 30\<rparr>)] \<and>
   \<not> list_ex (id_eq (Finite 2))
       (created (fst (run [(30, Create (Body (Str ''Third'') (Str ''Yet another post'')))]
          \<lparr>rows = [\<lparr>post_id = 1, title = ''Hello'', content = ''This is a test post'',
                     created_at = Some 10, updated_at = Some 10\<rparr>], seq = 2,
           defaults = True\<rparr>)))"
proof -
  let ?pre = "[(10::nat, Create (Body (Str ''Hello'') (Str ''This is a test post''))),
        (20, Create (Body (Str ''Second'') (Str ''Another test post'')))]"
  let ?resps0 = "[Resp 201 (Row \<lparr>post_id = 1, title = ''Hello'', content = ''This is a test post'',
                       created_at = Some 10, updated_at = Some 10\<rparr>),
       Resp 201 (Row \<lparr>post_id = 2, title = ''Second'', content = ''Another test post'',
                       created_at = Some 20, updated_at = Some 20\<rparr>)]"
  let ?s1 = "\<lparr>rows = [\<lparr>post_id = 1, title = ''Hello'', content = ''This is a test post'',
                 created_at = Some 10, updated_at = Some 10\<rparr>], seq = 2, defaults = True\<rparr>"
  let ?reqs = "[(30::nat, Create (Body (Str ''Third'') (Str ''Yet another post'')))]"
  let ?r3 = "Resp 201 (Row \<lparr>post_id = 3, title = ''Third'', content = ''Yet another post'',
                 created_at = Some 30, updated_at = Some 30\<rparr>)"
  let ?s2 = "\<lparr>rows = [\<lparr>post_id = 1, title = ''Hello'', content = ''This is a test post'',
                 created_at = Some 10, updated_at = Some 10\<rparr>,
               \<lparr>post_id = 3, title = ''Third'', content = ''Yet another post'',
                 created_at = Some 30, updated_at = Some 30\<rparr>], seq = 3, defaults = True\<rparr>"
  have t: "trim ''Hello'' = ''Hello''" "trim ''This is a test post'' = ''This is a test post''"
    "trim ''Second'' = ''Second''" "trim ''Another test post'' = ''Another test post''"
    "trim ''Third'' = ''Third''" "trim ''Yet another post'' = ''Yet another post''"
    by (simp_all add: trim_def is_space_def)
  have p: "run ?pre init_store = (?resps0, two_posts)"
    by (simp add: create_post_def checked_def falsy_def t insert_post_def inserted_row_def
        largest_rowid_def init_store_def max_rowid_def select_by_id_def id_eq_def two_posts_def
        to_js_def to_double_def two53_def)
  have d: "delete_post (Finite 2) two_posts = (Resp 200 Success, ?s1)"
    by (simp add: delete_post_def delete_rows_def two_posts_def isFinite_def id_eq_def)
  have c: "run ?reqs ?s1 = ([?r3], ?s2)"
    by (simp add: create_post_def checked_def falsy_def t insert_post_def inserted_row_def
        largest_rowid_def max_rowid_def select_by_id_def id_eq_def to_js_def to_double_def
        two53_def)
  have b: "seq ?s2 \<le> two53" by (simp add: two53_def)
  from delete_finality[OF p d] have
    g: "get_post (Finite 2) ?s1 = Resp 404 (ErrorJson ''Not found'')"
    and "\<forall>reqs resps s2. run reqs ?s1 = (resps, s2) \<longrightarrow>
            (\<forall>p\<in>set (rows s2). \<not> id_eq (Finite 2) p) \<and>
            get_post (Finite 2) s2 = Resp 404 (ErrorJson ''Not found'') \<and>
            (seq s2 \<le> two53 \<longrightarrow>
               (\<forall>p\<in>set (created resps). \<not> id_eq (Finite 2) p) \<and>
               (\<exists>xs. get_posts s2 = Resp 200 (Rows xs) \<and> (\<forall>p\<in>set xs. \<not> id_eq (Finite 2) p)))"
    by blast+
  with c b have "\<forall>p\<in>set (created [?r3]). \<not> id_eq (Finite 2) p" by blast
  then have "\<not> list_ex (id_eq (Finite 2)) (created (fst (run ?reqs ?s1)))"
    unfolding list_ex_iff c by simp
  with p d g c show ?thesis by simp
qed

section \<open>Timestamps\<close>









section \<open>Lemmas about the client cache\<close>

lemma findIndex_None: "findIndex P xs = None \<longleftrightarrow> (\<forall>x\<in>set xs. \<not> P x)"
  by (induction xs) auto

lemma findIndex_Some:
  "findIndex P xs = Some i \<Longrightarrow> i < length xs \<and> P (xs ! i) \<and> (\<forall>j<i. \<not> P (xs ! j))"
proof (induction xs arbitrary: i)
  case Nil
  then show ?case by simp
next
  case (Cons x xs)
  show ?case
  proof (cases "P x")
    case True
    with Cons.prems show ?thesis by simp
  next
    case False
    with Cons.prems obtain k where k: "findIndex P xs = Some k" "i = Suc k" by auto
    from Cons.IH[OF k(1)] False k(2) show ?thesis
      by (auto simp: nth_Cons split: nat.splits)
  qed
qed

lemmas client_defs =
  createPost_def create_try_def updatePost_def update_try_def deletePost_def delete_try_def
  delete_done_def loadPosts_def load_try_def catch_notify_def setLoading_def notifyObservers_def

lemma createPost_ok:
  "validatePostData t c = Inr [] \<Longrightarrow>
   createPost t c (OkJson p) m =
     (Inr p, m\<lparr>posts := p # posts m, isLoading := False,
               emitted := emitted m @ [OnLoadingChange True, OnPostCreated p, OnLoadingChange False]\<rparr>)"
  by (simp add: client_defs)

lemma updatePost_ok:
  "isFinite n \<Longrightarrow> validatePostData t c = Inr [] \<Longrightarrow>
   updatePost n t c (OkJson p) m =
     (Inr p, m\<lparr>posts := (case findIndex (same_id n) (posts m) of
                            None \<Rightarrow> posts m | Some idx \<Rightarrow> (posts m)[idx := p]),
               isLoading := False,
               emitted := emitted m @ [OnLoadingChange True, OnPostUpdated p, OnLoadingChange False]\<rparr>)"
  by (simp add: client_defs split: option.splits)

lemma deletePost_ok:
  "isFinite n \<Longrightarrow> r = OkJson v \<or> r = OkNoJson msg \<Longrightarrow>
   deletePost n r m =
     (Inr True, m\<lparr>posts := filter (\<lambda>q. \<not> same_id n q) (posts m),
               isLoading := False,
               emitted := emitted m @ [OnLoadingChange True, OnPostDeleted n, OnLoadingChange False]\<rparr>)"
  by (auto simp: client_defs)

lemma valid_examples:
  "validatePostData (Str ''Hello'') (Str ''This is a test post'') = Inr []"
  "validatePostData (Str ''New'') (Str ''Changed content'') = Inr []"
  by (simp_all add: validatePostData_def validate_field_def trim_def is_space_def)

section \<open>Mutations of the cache\<close>

text \<open>
  Claim C8. When the data are valid and the server answers a create with a post, the post is
  put in front of the cached sequence, \<open>onPostCreated\<close> is notified with it and it is the
  result. When the id is finite, the data are valid and the server answers an update with a
  post, the first cached post with that id, if there is one, is replaced at its position,
  the sequence keeps its length, \<open>onPostUpdated\<close> is notified with the server's post and it
  is the result. When the id is finite and the server answers a delete with success, every
  cached post with that id is removed, \<open>onPostDeleted\<close> is notified with the numeric id and
  the result is true. In each case the only other notifications are the two changes of the
  loading flag, and the flag ends false.
\<close>

theorem cache_mutations:
  "(validatePostData t c = Inr [] \<longrightarrow>
      createPost t c (OkJson p) m =
        (Inr p, m\<lparr>posts := p # posts m, isLoading := False,
                  emitted := emitted m @
                    [OnLoadingChange True, OnPostCreated p, OnLoadingChange False]\<rparr>))
   \<and> (isFinite n \<and> validatePostData t c = Inr [] \<longrightarrow>
        (\<exists>ps. updatePost n t c (OkJson p) m =
            (Inr p, m\<lparr>posts := ps, isLoading := False,
                      emitted := emitted m @
                        [OnLoadingChange True, OnPostUpdated p, OnLoadingChange False]\<rparr>) \<and>
          length ps = length (posts m) \<and>
          ((\<exists>q\<in>set (posts m). same_id n q) \<longrightarrow>
             (\<exists>i<length (posts m). same_id n (posts m ! i) \<and>
                 (\<forall>j<i. \<not> same_id n (posts m ! j)) \<and> ps = (posts m)[i := p]))))
   \<and> (isFinite n \<and> (r = OkJson v \<or> r = OkNoJson msg) \<longrightarrow>
        deletePost n r m =
          (Inr True, m\<lparr>posts := filter (\<lambda>q. \<not> same_id n q) (posts m), isLoading := False,
                       emitted := emitted m @
                         [OnLoadingChange True, OnPostDeleted n, OnLoadingChange False]\<rparr>) \<and>
        (\<forall>q\<in>set (posts (snd (deletePost n r m))). \<not> same_id n q))"
proof (intro conjI impI)
  assume "validatePostData t c = Inr []"
  then show "createPost t c (OkJson p) m =
        (Inr p, m\<lparr>posts := p # posts m, isLoading := False,
                  emitted := emitted m @
                    [OnLoadingChange True, OnPostCreated p, OnLoadingChange False]\<rparr>)"
    by (rule createPost_ok)
next
  assume a: "isFinite n \<and> validatePostData t c = Inr []"
  let ?ps = "case findIndex (same_id n) (posts m) of
               None \<Rightarrow> posts m | Some idx \<Rightarrow> (posts m)[idx := p]"
  have u: "updatePost n t c (OkJson p) m =
            (Inr p, m\<lparr>posts := ?ps, isLoading := False,
                      emitted := emitted m @
                        [OnLoadingChange True, OnPostUpdated p, OnLoadingChange False]\<rparr>)"
    using a by (simp add: updatePost_ok)
  have l: "length ?ps = length (posts m)" by (simp split: option.splits)
  have f: "\<exists>i<length (posts m). same_id n (posts m ! i) \<and>
                 (\<forall>j<i. \<not> same_id n (posts m ! j)) \<and> ?ps = (posts m)[i := p]"
    if "\<exists>q\<in>set (posts m). same_id n q"
  proof -
    from that have "findIndex (same_id n) (posts m) \<noteq> None" by (simp add: findIndex_None)
    then obtain i where i: "findIndex (same_id n) (posts m) = Some i" by blast
    from findIndex_Some[OF i] i show ?thesis by auto
  qed
  from u l f show "\<exists>ps. updatePost n t c (OkJson p) m =
            (Inr p, m\<lparr>posts := ps, isLoading := False,
                      emitted := emitted m @
                        [OnLoadingChange True, OnPostUpdated p, OnLoadingChange False]\<rparr>) \<and>
          length ps = length (posts m) \<and>
          ((\<exists>q\<in>set (posts m). same_id n q) \<longrightarrow>
             (\<exists>i<length (posts m). same_id n (posts m ! i) \<and>
                 (\<forall>j<i. \<not> same_id n (posts m ! j)) \<and> ps = (posts m)[i := p]))"
    by blast
next
  assume a: "isFinite n \<and> (r = OkJson v \<or> r = OkNoJson msg)"
  then have d: "deletePost n r m =
          (Inr True, m\<lparr>posts := filter (\<lambda>q. \<not> same_id n q) (posts m), isLoading := False,
                       emitted := emitted m @
                         [OnLoadingChange True, OnPostDeleted n, OnLoadingChange False]\<rparr>)"
    using deletePost_ok[of n r v msg m] by blast
  then show "deletePost n r m =
          (Inr True, m\<lparr>posts := filter (\<lambda>q. \<not> same_id n q) (posts m), isLoading := False,
                       emitted := emitted m @
                         [OnLoadingChange True, OnPostDeleted n, OnLoadingChange False]\<rparr>)" .
  from d show "\<forall>q\<in>set (posts (snd (deletePost n r m))). \<not> same_id n q" by simp
qed

theorem cache_mutations_witness:
  "createPost (Str ''Hello'') (Str ''This is a test post'') (OkJson hello_post) init_model =
     (Inr hello_post,
      \<lparr>posts = [hello_post], isLoading = False,
       emitted = [OnLoadingChange True, OnPostCreated hello_post, OnLoadingChange False]\<rparr>) \<and>
   updatePost (Finite 1) (Str ''New'') (Str ''Changed content'') (OkJson edited_post) loaded_model =
     (Inr edited_post,
      \<lparr>posts = [second_post, edited_post], isLoading = False,
       emitted = [OnLoadingChange True, OnPostUpdated edited_post, OnLoadingChange False]\<rparr>) \<and>
   deletePost (Finite 2) (OkJson ()) loaded_model =
     (Inr True,
      \<lparr>posts = [hello_post], isLoading = False,
       emitted = [OnLoadingChange True, OnPostDeleted (Finite 2), OnLoadingChange False]\<rparr>)"
proof -
  have f: "isFinite (Finite 1)" "isFinite (Finite 2)" by (simp_all add: isFinite_def)
  have m: "\<exists>q\<in>set (posts loaded_model). same_id (Finite 1) q"
    by (simp add: loaded_model_def same_id_def hello_post_def)
  have c: "createPost (Str ''Hello'') (Str ''This is a test post'') (OkJson hello_post) init_model =
     (Inr hello_post,
      \<lparr>posts = [hello_post], isLoading = False,
       emitted = [OnLoadingChange True, OnPostCreated hello_post, OnLoadingChange False]\<rparr>)"
    using cache_mutations[where t = "Str ''Hello''" and c = "Str ''This is a test post''"
        and p = hello_post and m = init_model and n = NaN and r = "OkJson ()" and v = "()"
        and msg = "[]"] valid_examples(1)
    by (simp add: init_model_def)
  from cache_mutations[where n = "Finite 1" and t = "Str ''New''" and c = "Str ''Changed content''"
        and p = edited_post and m = loaded_model and r = "OkJson ()" and v = "()" and msg = "[]"]
    f(1) valid_examples(2) m
  obtain ps i where
    u: "updatePost (Finite 1) (Str ''New'') (Str ''Changed content'') (OkJson edited_post) loaded_model =
            (Inr edited_post, loaded_model\<lparr>posts := ps, isLoading := False,
                      emitted := emitted loaded_model @
                        [OnLoadingChange True, OnPostUpdated edited_post, OnLoadingChange False]\<rparr>)"
    and i: "i < length (posts loaded_model)" "same_id (Finite 1) (posts loaded_model ! i)"
      "ps = (posts loaded_model)[i := edited_post]"
    by blast
  from i(1) have "i = 0 \<or> i = 1" by (auto simp: loaded_model_def)
  with i(2) have "i = 1" by (auto simp: loaded_model_def same_id_def second_post_def)
  with i(3) have "ps = [second_post, edited_post]" by (simp add: loaded_model_def)
  with u have u': "updatePost (Finite 1) (Str ''New'') (Str ''Changed content'') (OkJson edited_post) loaded_model =
     (Inr edited_post,
      \<lparr>posts = [second_post, edited_post], isLoading = False,
       emitted = [OnLoadingChange True, OnPostUpdated edited_post, OnLoadingChange False]\<rparr>)"
    by (simp add: loaded_model_def)
  have d: "deletePost (Finite 2) (OkJson ()) loaded_model =
     (Inr True,
      \<lparr>posts = [hello_post], isLoading = False,
       emitted = [OnLoadingChange True, OnPostDeleted (Finite 2), OnLoadingChange False]\<rparr>)"
    using cache_mutations[where n = "Finite 2" and r = "OkJson ()" and v = "()" and m = loaded_model
        and t = Undefined and c = Undefined and p = hello_post and msg = "[]"] f(2)
    by (simp add: loaded_model_def same_id_def hello_post_def second_post_def)
  from c u' d show ?thesis by (simp only: simp_thms)
qed

section \<open>Mutations of a post that is not cached\<close>

text \<open>
  Claim C10. A successful update or delete of a finite id that no cached post has still
  returns normally and notifies \<open>onPostUpdated\<close> with the server's post, respectively
  \<open>onPostDeleted\<close> with the id; the cached sequence is left exactly as it was.
\<close>

theorem mutations_without_cached_post:
  "(isFinite n \<and> validatePostData t c = Inr [] \<and> (\<forall>q\<in>set (posts m). \<not> same_id n q) \<longrightarrow>
      updatePost n t c (OkJson p) m =
        (Inr p, m\<lparr>isLoading := False,
                  emitted := emitted m @
                    [OnLoadingChange True, OnPostUpdated p, OnLoadingChange False]\<rparr>) \<and>
      posts (snd (updatePost n t c (OkJson p) m)) = posts m)
   \<and> (isFinite n \<and> (r = OkJson v \<or> r = OkNoJson msg) \<and> (\<forall>q\<in>set (posts m). \<not> same_id n q) \<longrightarrow>
        deletePost n r m =
          (Inr True, m\<lparr>isLoading := False,
                       emitted := emitted m @
                         [OnLoadingChange True, OnPostDeleted n, OnLoadingChange False]\<rparr>) \<and>
        posts (snd (deletePost n r m)) = posts m)"
proof (intro conjI impI)
  assume a: "isFinite n \<and> validatePostData t c = Inr [] \<and> (\<forall>q\<in>set (posts m). \<not> same_id n q)"
  then have "findIndex (same_id n) (posts m) = None" by (simp add: findIndex_None)
  with a have u: "updatePost n t c (OkJson p) m =
        (Inr p, m\<lparr>isLoading := False,
                  emitted := emitted m @
                    [OnLoadingChange True, OnPostUpdated p, OnLoadingChange False]\<rparr>)"
    by (simp add: updatePost_ok)
  then show "updatePost n t c (OkJson p) m =
        (Inr p, m\<lparr>isLoading := False,
                  emitted := emitted m @
                    [OnLoadingChange True, OnPostUpdated p, OnLoadingChange False]\<rparr>)" .
  from u show "posts (snd (updatePost n t c (OkJson p) m)) = posts m" by simp
next
  assume a: "isFinite n \<and> (r = OkJson v \<or> r = OkNoJson msg) \<and> (\<forall>q\<in>set (posts m). \<not> same_id n q)"
  then have "filter (\<lambda>q. \<not> same_id n q) (posts m) = posts m" by (simp add: filter_none)
  moreover from a have "deletePost n r m =
          (Inr True, m\<lparr>posts := filter (\<lambda>q. \<not> same_id n q) (posts m), isLoading := False,
                       emitted := emitted m @
                         [OnLoadingChange True, OnPostDeleted n, OnLoadingChange False]\<rparr>)"
    using deletePost_ok[of n r v msg m] by blast
  ultimately have d: "deletePost n r m =
          (Inr True, m\<lparr>isLoading := False,
                       emitted := emitted m @
                         [OnLoadingChange True, OnPostDeleted n, OnLoadingChange False]\<rparr>)"
    by simp
  then show "deletePost n r m =
          (Inr True, m\<lparr>isLoading := False,
                       emitted := emitted m @
                         [OnLoadingChange True, OnPostDeleted n, OnLoadingChange False]\<rparr>)" .
  from d show "posts (snd (deletePost n r m)) = posts m" by simp
qed

theorem mutations_without_cached_post_witness:
  "updatePost (Finite 7) (Str ''New'') (Str ''Changed content'') (OkJson edited_post) loaded_model =
     (Inr edited_post,
      \<lparr>posts = [second_post, hello_post], isLoading = False,
       emitted = [OnLoadingChange True, OnPostUpdated edited_post, OnLoadingChange False]\<rparr>) \<and>
   deletePost (Finite 7) (OkJson ()) loaded_model =
     (Inr True,
      \<lparr>posts = [second_post, hello_post], isLoading = False,
       emitted = [OnLoadingChange True, OnPostDeleted (Finite 7), OnLoadingChange False]\<rparr>)"
proof -
  have f: "isFinite (Finite 7)" by (simp add: isFinite_def)
  have m: "\<forall>q\<in>set (posts loaded_model). \<not> same_id (Finite 7) q"
    by (simp add: loaded_model_def same_id_def hello_post_def second_post_def)
  from mutations_without_cached_post[where n = "Finite 7" and t = "Str ''New''"
      and c = "Str ''Changed content''" and p = edited_post and m = loaded_model
      and r = "OkJson ()" and v = "()" and msg = "[]"] f m valid_examples(2)
  show ?thesis by (simp add: loaded_model_def)
qed

section \<open>The loading flag\<close>

lemma catch_notify_trace:
  assumes "\<exists>evs. emitted (snd rm) = es @ evs \<and> \<not> list_ex is_loading_event evs"
  shows "\<exists>evs. emitted (snd (catch_notify rm)) = es @ evs \<and> \<not> list_ex is_loading_event evs"
proof -
  obtain res m where rm: "rm = (res, m)" by (cases rm)
  from assms rm obtain evs where e: "emitted m = es @ evs" "\<not> list_ex is_loading_event evs" by auto
  show ?thesis
  proof (cases res)
    case (Inl err)
    with rm e have "emitted (snd (catch_notify rm)) = es @ (evs @ [OnError err])"
      and "\<not> list_ex is_loading_event (evs @ [OnError err])"
      by (simp_all add: catch_notify_def notifyObservers_def)
    then show ?thesis by blast
  next
    case (Inr v)
    with rm e show ?thesis by (auto simp: catch_notify_def)
  qed
qed

lemma catch_notify_flag: "isLoading (snd (catch_notify rm)) = isLoading (snd rm)"
  by (cases rm; cases "fst rm") (auto simp: catch_notify_def notifyObservers_def)

lemma load_try_trace:
  "\<exists>evs. emitted (snd (load_try r m)) = emitted m @ evs \<and> \<not> list_ex is_loading_event evs"
  by (cases r) (auto simp: load_try_def notifyObservers_def)

lemma load_try_flag: "isLoading (snd (load_try r m)) = isLoading m"
  by (cases r) (auto simp: load_try_def notifyObservers_def)

lemma create_try_trace:
  "\<exists>evs. emitted (snd (create_try t c r m)) = emitted m @ evs \<and> \<not> list_ex is_loading_event evs"
  by (cases "validatePostData t c"; cases r)
     (auto simp: create_try_def notifyObservers_def)

lemma create_try_flag: "isLoading (snd (create_try t c r m)) = isLoading m"
  by (cases "validatePostData t c"; cases r)
     (auto simp: create_try_def notifyObservers_def)

lemma update_try_trace:
  "\<exists>evs. emitted (snd (update_try n t c r m)) = emitted m @ evs \<and> \<not> list_ex is_loading_event evs"
  by (cases "validatePostData t c"; cases r)
     (auto simp: update_try_def notifyObservers_def split: option.splits)

lemma update_try_flag: "isLoading (snd (update_try n t c r m)) = isLoading m"
  by (cases "validatePostData t c"; cases r)
     (auto simp: update_try_def notifyObservers_def split: option.splits)

lemma delete_try_trace:
  "\<exists>evs. emitted (snd (delete_try n r m)) = emitted m @ evs \<and> \<not> list_ex is_loading_event evs"
  by (cases r) (auto simp: delete_try_def delete_done_def notifyObservers_def)

lemma delete_try_flag: "isLoading (snd (delete_try n r m)) = isLoading m"
  by (cases r) (auto simp: delete_try_def delete_done_def notifyObservers_def)

text \<open>The \<open>finally\<close> block of create, update and delete, after a body that only appends.\<close>

lemma finally_trace:
  assumes "\<exists>evs. emitted (snd rm) = (emitted m @ [OnLoadingChange True]) @ evs \<and>
                 \<not> list_ex is_loading_event evs"
  shows "\<exists>evs. emitted (setLoading False (snd rm)) =
            emitted m @ [OnLoadingChange True] @ evs @ [OnLoadingChange False] \<and>
            \<not> list_ex is_loading_event evs"
  using assms by (auto simp: setLoading_def notifyObservers_def)

lemma emitted_setLoading: "emitted (setLoading b m) = emitted m @ [OnLoadingChange b]"
  by (simp add: setLoading_def notifyObservers_def)

text \<open>
  Claim C9, as amended. Whatever the input and the outcome, each of the four operations
  first notifies \<open>onLoadingChange\<close> with true and sets the flag, keeps the flag true until
  its \<open>finally\<close> block, and ends by setting the flag to false and notifying
  \<open>onLoadingChange\<close> with false. \<open>loadPosts\<close> alone notifies \<open>onLoadingStart\<close> after the
  first and \<open>onLoadingEnd\<close> after the last of these; create, update and delete notify
  neither, and no operation notifies anything about loading in between.
\<close>

theorem loading_flag:
  "(\<exists>evs. emitted (snd (loadPosts r0 m)) =
            emitted m @ [OnLoadingChange True, OnLoadingStart] @ evs @
              [OnLoadingChange False, OnLoadingEnd] \<and>
          \<not> list_ex is_loading_event evs)
   \<and> (\<exists>evs. emitted (snd (createPost t c r1 m)) =
            emitted m @ [OnLoadingChange True] @ evs @ [OnLoadingChange False] \<and>
          \<not> list_ex is_loading_event evs)
   \<and> (\<exists>evs. emitted (snd (updatePost n t c r1 m)) =
            emitted m @ [OnLoadingChange True] @ evs @ [OnLoadingChange False] \<and>
          \<not> list_ex is_loading_event evs)
   \<and> (\<exists>evs. emitted (snd (deletePost n r2 m)) =
            emitted m @ [OnLoadingChange True] @ evs @ [OnLoadingChange False] \<and>
          \<not> list_ex is_loading_event evs)
   \<and> isLoading (snd (catch_notify
          (load_try r0 (notifyObservers OnLoadingStart (setLoading True m)))))
   \<and> isLoading (snd (catch_notify (create_try t c r1 (setLoading True m))))
   \<and> isLoading (snd (catch_notify (update_try n t c r1 (setLoading True m))))
   \<and> isLoading (snd (catch_notify (delete_try n r2 (setLoading True m))))
   \<and> \<not> isLoading (snd (loadPosts r0 m)) \<and> \<not> isLoading (snd (createPost t c r1 m))
   \<and> \<not> isLoading (snd (updatePost n t c r1 m)) \<and> \<not> isLoading (snd (deletePost n r2 m))"
proof (intro conjI)
  let ?m1 = "notifyObservers OnLoadingStart (setLoading True m)"
  have e1: "emitted ?m1 = emitted m @ [OnLoadingChange True, OnLoadingStart]"
    by (simp add: setLoading_def notifyObservers_def)
  from load_try_trace[of r0 ?m1]
  have "\<exists>evs. emitted (snd (load_try r0 ?m1)) = emitted ?m1 @ evs \<and> \<not> list_ex is_loading_event evs" .
  from catch_notify_trace[OF this] obtain evs where
    "emitted (snd (catch_notify (load_try r0 ?m1))) = emitted ?m1 @ evs"
    "\<not> list_ex is_loading_event evs" by blast
  then have "emitted (snd (loadPosts r0 m)) =
            emitted m @ [OnLoadingChange True, OnLoadingStart] @ evs @
              [OnLoadingChange False, OnLoadingEnd] \<and> \<not> list_ex is_loading_event evs"
    by (simp add: loadPosts_def case_prod_beta setLoading_def notifyObservers_def)
  then show "\<exists>evs. emitted (snd (loadPosts r0 m)) =
            emitted m @ [OnLoadingChange True, OnLoadingStart] @ evs @
              [OnLoadingChange False, OnLoadingEnd] \<and>
          \<not> list_ex is_loading_event evs" by blast
next
  let ?m1 = "setLoading True m"
  from create_try_trace[of t c r1 ?m1]
  have "\<exists>evs. emitted (snd (create_try t c r1 ?m1)) = emitted ?m1 @ evs \<and>
          \<not> list_ex is_loading_event evs" .
  from catch_notify_trace[OF this]
  have "\<exists>evs. emitted (snd (catch_notify (create_try t c r1 ?m1))) =
          (emitted m @ [OnLoadingChange True]) @ evs \<and> \<not> list_ex is_loading_event evs"
    by (simp only: emitted_setLoading)
  from finally_trace[OF this]
  show "\<exists>evs. emitted (snd (createPost t c r1 m)) =
            emitted m @ [OnLoadingChange True] @ evs @ [OnLoadingChange False] \<and>
          \<not> list_ex is_loading_event evs"
    by (simp add: createPost_def case_prod_beta)
next
  let ?m1 = "setLoading True m"
  from update_try_trace[of n t c r1 ?m1]
  have "\<exists>evs. emitted (snd (update_try n t c r1 ?m1)) = emitted ?m1 @ evs \<and>
          \<not> list_ex is_loading_event evs" .
  from catch_notify_trace[OF this]
  have "\<exists>evs. emitted (snd (catch_notify (update_try n t c r1 ?m1))) =
          (emitted m @ [OnLoadingChange True]) @ evs \<and> \<not> list_ex is_loading_event evs"
    by (simp only: emitted_setLoading)
  from finally_trace[OF this]
  show "\<exists>evs. emitted (snd (updatePost n t c r1 m)) =
            emitted m @ [OnLoadingChange True] @ evs @ [OnLoadingChange False] \<and>
          \<not> list_ex is_loading_event evs"
    by (simp add: updatePost_def case_prod_beta)
next
  let ?m1 = "setLoading True m"
  from delete_try_trace[of n r2 ?m1]
  have "\<exists>evs. emitted (snd (delete_try n r2 ?m1)) = emitted ?m1 @ evs \<and>
          \<not> list_ex is_loading_event evs" .
  from catch_notify_trace[OF this]
  have "\<exists>evs. emitted (snd (catch_notify (delete_try n r2 ?m1))) =
          (emitted m @ [OnLoadingChange True]) @ evs \<and> \<not> list_ex is_loading_event evs"
    by (simp only: emitted_setLoading)
  from finally_trace[OF this]
  show "\<exists>evs. emitted (snd (deletePost n r2 m)) =
            emitted m @ [OnLoadingChange True] @ evs @ [OnLoadingChange False] \<and>
          \<not> list_ex is_loading_event evs"
    by (simp add: deletePost_def case_prod_beta)
next
  show "isLoading (snd (catch_notify
          (load_try r0 (notifyObservers OnLoadingStart (setLoading True m)))))"
    by (simp add: catch_notify_flag load_try_flag setLoading_def notifyObservers_def)
  show "isLoading (snd (catch_notify (create_try t c r1 (setLoading True m))))"
    by (simp add: catch_notify_flag create_try_flag setLoading_def notifyObservers_def)
  show "isLoading (snd (catch_notify (update_try n t c r1 (setLoading True m))))"
    by (simp add: catch_notify_flag update_try_flag setLoading_def notifyObservers_def)
  show "isLoading (snd (catch_notify (delete_try n r2 (setLoading True m))))"
    by (simp add: catch_notify_flag delete_try_flag setLoading_def notifyObservers_def)
  show "\<not> isLoading (snd (loadPosts r0 m))"
    by (simp add: loadPosts_def case_prod_beta setLoading_def notifyObservers_def)
  show "\<not> isLoading (snd (createPost t c r1 m))"
    by (simp add: createPost_def case_prod_beta setLoading_def notifyObservers_def)
  show "\<not> isLoading (snd (updatePost n t c r1 m))"
    by (simp add: updatePost_def case_prod_beta setLoading_def notifyObservers_def)
  show "\<not> isLoading (snd (deletePost n r2 m))"
    by (simp add: deletePost_def case_prod_beta setLoading_def notifyObservers_def)
qed

text \<open>
  A successful \<open>createPost\<close> notifies \<open>onLoadingChange\<close>, \<open>onPostCreated\<close> and
  \<open>onLoadingChange\<close> and never \<open>onLoadingStart\<close>.
\<close>

theorem create_emits_no_loading_start:
  "emitted (snd (createPost (Str ''Hello'') (Str ''This is a test post'') (OkJson hello_post)
                   init_model)) =
     [OnLoadingChange True, OnPostCreated hello_post, OnLoadingChange False] \<and>
   OnLoadingStart \<notin> set (emitted (snd (createPost (Str ''Hello'') (Str ''This is a test post'')
                                        (OkJson hello_post) init_model)))"
  by (simp add: createPost_ok[OF valid_examples(1)] init_model_def)

theorem loading_flag_witness:
  "(\<exists>evs. emitted (snd (loadPosts (OkJson [second_post, hello_post]) init_model)) =
            [OnLoadingChange True, OnLoadingStart] @ evs @ [OnLoadingChange False, OnLoadingEnd] \<and>
          \<not> list_ex is_loading_event evs) \<and>
   (\<exists>evs. emitted (snd (createPost (Str ''ab'') (Str ''too short'') (OkJson hello_post) init_model)) =
            [OnLoadingChange True] @ evs @ [OnLoadingChange False] \<and>
          \<not> list_ex is_loading_event evs) \<and>
   \<not> isLoading (snd (loadPosts (OkJson [second_post, hello_post]) init_model)) \<and>
   \<not> isLoading (snd (createPost (Str ''ab'') (Str ''too short'') (OkJson hello_post) init_model))"
  using loading_flag[where ?r0.0 = "OkJson [second_post, hello_post]" and m = init_model
      and t = "Str ''ab''" and c = "Str ''too short''" and ?r1.0 = "OkJson hello_post"
      and n = NaN and ?r2.0 = "OkJson ()"]
  by (simp add: init_model_def)

end
